theory Spec2Isabelle
  imports Complex_Main
begin

section \<open>JavaScript values\<close>

text \<open>
  The page script of the scanner (the \<^verbatim>\<open><script setup lang="ts"></script>\<close> block of the
  page component) derives everything it shows from the decoded response of
  \<^verbatim>\<open>/api/scan\<close>, a value of type \<^verbatim>\<open>any\<close>. The model therefore starts from the
  values a decoded response can hold.

  A Number is a finite value, NaN or one of the two infinities. A finite Number is
  modelled by the real it denotes: the rounding of binary64 arithmetic, its overflow
  and the sign of zero are not modelled.
\<close>

datatype jsnum = Fin real | NaN | PosInf | NegInf

datatype jsval =
    JUndefined
  | JNull
  | JBool bool
  | JNum jsnum
  | JStr string
  | JArr "jsval list"
  | JObj "(string \<times> jsval) list"

text \<open>
  The exceptions the script can raise by itself: a TypeError of the language, and the
  RangeError an engine throws when a call exhausts its stack, takes more arguments than
  it accepts or builds a string longer than it allows.
\<close>

datatype js_error = TypeError | RangeError

text \<open>
  Sequencing of computations that may throw: the first exception ends the evaluation.
\<close>

definition then_js :: "(js_error + 'a) \<Rightarrow> ('a \<Rightarrow> js_error + 'b) \<Rightarrow> js_error + 'b" where
  "then_js m f = (case m of Inl e \<Rightarrow> Inl e | Inr x \<Rightarrow> f x)"

text \<open>\<^verbatim>\<open>Array.prototype.map\<close> with a callback that may throw.\<close>

fun map_js :: "('a \<Rightarrow> js_error + 'b) \<Rightarrow> 'a list \<Rightarrow> js_error + 'b list" where
  "map_js f [] = Inr []"
| "map_js f (x # xs) =
     (case f x of
        Inl e \<Rightarrow> Inl e
      | Inr y \<Rightarrow> (case map_js f xs of Inl e \<Rightarrow> Inl e | Inr ys \<Rightarrow> Inr (y # ys)))"

text \<open>\<^verbatim>\<open>Array.prototype.find\<close> with a callback that may throw.\<close>

fun find_js :: "(jsval \<Rightarrow> js_error + bool) \<Rightarrow> jsval list \<Rightarrow> js_error + jsval" where
  "find_js p [] = Inr JUndefined"
| "find_js p (x # xs) =
     (case p x of
        Inl e \<Rightarrow> Inl e
      | Inr b \<Rightarrow> if b then Inr x else find_js p xs)"

fun isFinite :: "jsnum \<Rightarrow> bool" where
  "isFinite (Fin x) = True"
| "isFinite NaN = False"
| "isFinite PosInf = False"
| "isFinite NegInf = False"

fun truthy :: "jsval \<Rightarrow> bool" where
  "truthy JUndefined = False"
| "truthy JNull = False"
| "truthy (JBool b) = b"
| "truthy (JNum n) = (n \<noteq> NaN \<and> n \<noteq> Fin 0)"
| "truthy (JStr s) = (s \<noteq> [])"
| "truthy (JArr xs) = True"
| "truthy (JObj ps) = True"

fun typeof :: "jsval \<Rightarrow> string" where
  "typeof JUndefined = ''undefined''"
| "typeof JNull = ''object''"
| "typeof (JBool b) = ''boolean''"
| "typeof (JNum n) = ''number''"
| "typeof (JStr s) = ''string''"
| "typeof (JArr xs) = ''object''"
| "typeof (JObj ps) = ''object''"

fun isArray :: "jsval \<Rightarrow> bool" where
  "isArray (JArr xs) = True"
| "isArray v = False"

fun elements :: "jsval \<Rightarrow> jsval list" where
  "elements (JArr xs) = xs"
| "elements v = []"

definition nullish :: "jsval \<Rightarrow> bool" where
  "nullish v = (v = JUndefined \<or> v = JNull)"

text \<open>The operator \<^verbatim>\<open>??\<close>.\<close>

definition coalesce :: "jsval \<Rightarrow> jsval \<Rightarrow> jsval" where
  "coalesce v d = (if nullish v then d else v)"

text \<open>
  Reading a property \<^verbatim>\<open>v.k\<close>. It throws on \<^verbatim>\<open>undefined\<close> and \<^verbatim>\<open>null\<close>, reads the own
  property of an object, and is \<^verbatim>\<open>undefined\<close> everywhere else. The script reads only
  keys of the snapshot (\<^verbatim>\<open>data\<close>, \<^verbatim>\<open>progress\<close>, \<^verbatim>\<open>series\<close>, \<^verbatim>\<open>epoch\<close>, \<^verbatim>\<open>points\<close>,
  \<^verbatim>\<open>timestamp\<close>, \<^verbatim>\<open>address\<close>, ...), none of which names a property that arrays,
  strings, numbers or \<^verbatim>\<open>Object.prototype\<close> provide, so inherited properties play no
  part.
\<close>

fun getProp :: "jsval \<Rightarrow> string \<Rightarrow> js_error + jsval" where
  "getProp JUndefined k = Inl TypeError"
| "getProp JNull k = Inl TypeError"
| "getProp (JObj ps) k = Inr (case map_of ps k of None \<Rightarrow> JUndefined | Some v \<Rightarrow> v)"
| "getProp v k = Inr JUndefined"

text \<open>Optional chaining \<^verbatim>\<open>v?.k\<close>.\<close>

definition optGet :: "jsval \<Rightarrow> string \<Rightarrow> js_error + jsval" where
  "optGet v k = (if nullish v then Inr JUndefined else getProp v k)"

section \<open>Built-in conversions\<close>

text \<open>
  Three built-ins are parameters of the model, since their results depend on the
  binary64 representation or on a grammar the script does not contain:
  \<^item> \<^verbatim>\<open>StringToNumber\<close>: the numeric value of a string (\<^verbatim>\<open>Number("12")\<close>);
  \<^item> \<^verbatim>\<open>NumberToStringOther\<close>: the text of a finite Number that is not an integer below
    \<open>2\<^sup>5\<^sup>3\<close> in magnitude (its shortest round-trip digits, or exponent notation);
  \<^item> \<^verbatim>\<open>Date_parse\<close>: \<^verbatim>\<open>Date.parse\<close>, a time value in milliseconds or NaN.

  Three limits of the engine are parameters too, each the bound beyond which it throws a
  RangeError:
  \<^item> \<^verbatim>\<open>stack_depth\<close>: how many conversions of arrays, one inside the other, the call
    stack holds where the script converts a value;
  \<^item> \<^verbatim>\<open>max_string_length\<close>: the length of the longest string;
  \<^item> \<^verbatim>\<open>max_arguments\<close>: the largest number of arguments of one call, as reached by
    spreading an array into \<^verbatim>\<open>Math.max\<close>.
\<close>

record host =
  StringToNumber :: "string \<Rightarrow> jsnum"
  NumberToStringOther :: "real \<Rightarrow> string"
  Date_parse :: "string \<Rightarrow> jsnum"
  stack_depth :: nat
  max_string_length :: nat
  max_arguments :: nat

definition digit_char :: "nat \<Rightarrow> char" where
  "digit_char d = ''0123456789'' ! d"

fun decimal :: "nat \<Rightarrow> string" where
  "decimal n = (if n < 10 then [digit_char n] else decimal (n div 10) @ [digit_char (n mod 10)])"

declare decimal.simps [simp del]

text \<open>
  \<^verbatim>\<open>Number::toString\<close>: an integer below \<open>2\<^sup>5\<^sup>3\<close> in magnitude is printed as its decimal
  numeral.
\<close>

definition Number_toString :: "host \<Rightarrow> jsnum \<Rightarrow> string" where
  "Number_toString h n =
     (case n of
        NaN \<Rightarrow> ''NaN''
      | PosInf \<Rightarrow> ''Infinity''
      | NegInf \<Rightarrow> ''-Infinity''
      | Fin x \<Rightarrow>
          if x = of_int \<lfloor>x\<rfloor> \<and> \<bar>x\<bar> < 2 ^ 53
          then (if x < 0 then ''-'' else '''') @ decimal (nat \<lfloor>\<bar>x\<bar>\<rfloor>)
          else NumberToStringOther h x)"

text \<open>
  \<^verbatim>\<open>ToString\<close> and \<^verbatim>\<open>ToNumber\<close> of a decoded value. An array converts through
  \<^verbatim>\<open>Array.prototype.join\<close>, which prints \<^verbatim>\<open>undefined\<close> and \<^verbatim>\<open>null\<close> elements as the empty
  string and calls \<^verbatim>\<open>ToString\<close> on the others: each array inside an array is one more
  call on the stack, \<open>d\<close> being the number of such calls the stack still holds, and the
  joined string is refused when it is longer than the engine allows. A plain object
  converts through \<^verbatim>\<open>OrdinaryToPrimitive\<close>: the inherited \<^verbatim>\<open>valueOf\<close> returns the object
  itself, so the result is that of \<^verbatim>\<open>toString\<close>. The inherited \<^verbatim>\<open>toString\<close> gives
  \<^verbatim>\<open>[object Object]\<close>; an own property named \<^verbatim>\<open>toString\<close> shadows it, and since no
  decoded value is callable, no method is left that returns a primitive and the
  conversion throws a TypeError.
\<close>

fun ToString :: "host \<Rightarrow> nat \<Rightarrow> jsval \<Rightarrow> js_error + string"
  and join_elements :: "host \<Rightarrow> nat \<Rightarrow> jsval list \<Rightarrow> js_error + string" where
  "ToString h d JUndefined = Inr ''undefined''"
| "ToString h d JNull = Inr ''null''"
| "ToString h d (JBool b) = Inr (if b then ''true'' else ''false'')"
| "ToString h d (JNum n) = Inr (Number_toString h n)"
| "ToString h d (JStr s) = Inr s"
| "ToString h d (JArr xs) =
     (if d = 0 then Inl RangeError
      else
        (case join_elements h (d - 1) xs of
           Inl e \<Rightarrow> Inl e
         | Inr s \<Rightarrow> if max_string_length h < length s then Inl RangeError else Inr s))"
| "ToString h d (JObj ps) =
     (if ''toString'' \<in> fst ` set ps then Inl TypeError else Inr ''[object Object]'')"
| "join_elements h d [] = Inr []"
| "join_elements h d (x # xs) =
     (case (if x = JUndefined \<or> x = JNull then Inr [] else ToString h d x) of
        Inl e \<Rightarrow> Inl e
      | Inr s \<Rightarrow>
          (case xs of
             [] \<Rightarrow> Inr s
           | y # ys \<Rightarrow>
               (case join_elements h d (y # ys) of
                  Inl e \<Rightarrow> Inl e
                | Inr r \<Rightarrow> Inr (s @ '','' @ r))))"

fun ToNumber :: "host \<Rightarrow> jsval \<Rightarrow> js_error + jsnum" where
  "ToNumber h JUndefined = Inr NaN"
| "ToNumber h JNull = Inr (Fin 0)"
| "ToNumber h (JBool b) = Inr (Fin (if b then 1 else 0))"
| "ToNumber h (JNum n) = Inr n"
| "ToNumber h (JStr s) = Inr (StringToNumber h s)"
| "ToNumber h (JArr xs) =
     (case ToString h (stack_depth h) (JArr xs) of
        Inl e \<Rightarrow> Inl e
      | Inr s \<Rightarrow> Inr (StringToNumber h s))"
| "ToNumber h (JObj ps) =
     (if ''toString'' \<in> fst ` set ps then Inl TypeError else Inr NaN)"

section \<open>Number arithmetic\<close>

text \<open>
  The arithmetic of Numbers with NaN and the infinities written out. Division by the
  zero of the model follows \<^verbatim>\<open>+0\<close>.
\<close>

fun js_sign :: "jsnum \<Rightarrow> int" where
  "js_sign (Fin x) = (if 0 < x then 1 else if x < 0 then - 1 else 0)"
| "js_sign NaN = 0"
| "js_sign PosInf = 1"
| "js_sign NegInf = - 1"

definition inf_of :: "int \<Rightarrow> jsnum" where
  "inf_of s = (if 0 < s then PosInf else if s < 0 then NegInf else NaN)"

fun js_sub :: "jsnum \<Rightarrow> jsnum \<Rightarrow> jsnum" where
  "js_sub (Fin x) (Fin y) = Fin (x - y)"
| "js_sub NaN b = NaN"
| "js_sub a NaN = NaN"
| "js_sub (Fin x) PosInf = NegInf"
| "js_sub (Fin x) NegInf = PosInf"
| "js_sub PosInf PosInf = NaN"
| "js_sub PosInf b = PosInf"
| "js_sub NegInf NegInf = NaN"
| "js_sub NegInf b = NegInf"

fun js_mul :: "jsnum \<Rightarrow> jsnum \<Rightarrow> jsnum" where
  "js_mul (Fin x) (Fin y) = Fin (x * y)"
| "js_mul NaN b = NaN"
| "js_mul a NaN = NaN"
| "js_mul a b = inf_of (js_sign a * js_sign b)"

fun js_div :: "jsnum \<Rightarrow> jsnum \<Rightarrow> jsnum" where
  "js_div (Fin x) (Fin y) = (if y = 0 then inf_of (js_sign (Fin x)) else Fin (x / y))"
| "js_div NaN b = NaN"
| "js_div a NaN = NaN"
| "js_div (Fin x) b = Fin 0"
| "js_div a (Fin y) = inf_of (js_sign a * (if y < 0 then - 1 else 1))"
| "js_div a b = NaN"

text \<open>The remainder \<^verbatim>\<open>%\<close> takes the sign of the dividend.\<close>

fun js_mod :: "jsnum \<Rightarrow> jsnum \<Rightarrow> jsnum" where
  "js_mod (Fin x) (Fin y) =
     (if y = 0 then NaN
      else Fin (x - y * of_int (if 0 \<le> x / y then \<lfloor>x / y\<rfloor> else \<lceil>x / y\<rceil>)))"
| "js_mod (Fin x) PosInf = Fin x"
| "js_mod (Fin x) NegInf = Fin x"
| "js_mod a b = NaN"

fun js_less :: "jsnum \<Rightarrow> jsnum \<Rightarrow> bool" where
  "js_less (Fin x) (Fin y) = (x < y)"
| "js_less NaN b = False"
| "js_less a NaN = False"
| "js_less PosInf b = False"
| "js_less a NegInf = False"
| "js_less a b = True"

definition js_le :: "jsnum \<Rightarrow> jsnum \<Rightarrow> bool" where
  "js_le a b = (a \<noteq> NaN \<and> b \<noteq> NaN \<and> (js_less a b \<or> a = b))"

definition js_max :: "jsnum \<Rightarrow> jsnum \<Rightarrow> jsnum" where
  "js_max a b = (if a = NaN \<or> b = NaN then NaN else if js_less a b then b else a)"

text \<open>
  \<^verbatim>\<open>Math.max\<close> of the arguments written in a call; of no argument it is \<open>-\<infinity>\<close>.
\<close>

definition Math_max :: "jsnum list \<Rightarrow> jsnum" where
  "Math_max xs = foldl js_max NegInf xs"

text \<open>
  \<^verbatim>\<open>Math.max(x, ...ys)\<close>: every element of the spread array is one argument of the call,
  and the engine throws a RangeError when there are more than it accepts.
\<close>

definition Math_max_spread :: "host \<Rightarrow> jsnum list \<Rightarrow> js_error + jsnum" where
  "Math_max_spread h xs =
     (if max_arguments h < length xs then Inl RangeError else Inr (Math_max xs))"

fun Math_floor :: "jsnum \<Rightarrow> jsnum" where
  "Math_floor (Fin x) = Fin (of_int \<lfloor>x\<rfloor>)"
| "Math_floor n = n"

section \<open>The entity normalizer\<close>

record ProgressPoint =
  timestamp :: string
  flipsSeen :: jsnum
  uniqueAuthors :: jsnum

record ProgressEpochSeries =
  epoch :: jsnum
  points :: "ProgressPoint list"

text \<open>
  \<^verbatim>\<open>payload\<close> is \<^verbatim>\<open>data.value?.data ?? null\<close>, where \<^verbatim>\<open>data.value\<close> is the decoded
  response.
\<close>

definition payload :: "jsval \<Rightarrow> js_error + jsval" where
  "payload response = then_js (optGet response ''data'') (\<lambda>d. Inr (coalesce d JNull))"

definition gradeLeaderboard :: "jsval \<Rightarrow> js_error + jsval" where
  "gradeLeaderboard response =
     then_js (payload response) (\<lambda>p.
     then_js (optGet p ''gradeLeaderboard'') (\<lambda>v.
       Inr (if truthy v \<and> typeof v = ''object'' then v else JNull)))"

definition topIdentities :: "jsval \<Rightarrow> js_error + jsval list" where
  "topIdentities response =
     then_js (gradeLeaderboard response) (\<lambda>g.
     then_js (optGet g ''topIdentities'') (\<lambda>v.
       Inr (if isArray v then elements v else [])))"

definition identityLookup :: "jsval \<Rightarrow> js_error + jsval list" where
  "identityLookup response =
     then_js (gradeLeaderboard response) (\<lambda>g.
     then_js (optGet g ''identityLookup'') (\<lambda>v.
       if isArray v \<and> 0 < length (elements v) then Inr (elements v)
       else topIdentities response))"


definition progressPayload :: "jsval \<Rightarrow> js_error + jsval" where
  "progressPayload response =
     then_js (payload response) (\<lambda>p.
     then_js (optGet p ''progress'') (\<lambda>v.
       Inr (if truthy v \<and> typeof v = ''object'' then v else JNull)))"

text \<open>
  The callback that both series computeds map over a \<^verbatim>\<open>points\<close> array (the script
  writes it out twice, with the same text). \<^verbatim>\<open>None\<close> is its \<^verbatim>\<open>null\<close>.
\<close>

definition normalizePoint :: "host \<Rightarrow> jsval \<Rightarrow> js_error + ProgressPoint option" where
  "normalizePoint h point =
     (if \<not> truthy point \<or> typeof point \<noteq> ''object'' then Inr None
      else
        then_js (getProp point ''timestamp'') (\<lambda>ts.
          case ts of
            JStr s \<Rightarrow>
              then_js (getProp point ''flipsSeen'') (\<lambda>f.
              then_js (ToNumber h (coalesce f (JNum (Fin 0)))) (\<lambda>fs.
              then_js (getProp point ''uniqueAuthors'') (\<lambda>u.
              then_js (ToNumber h (coalesce u (JNum (Fin 0)))) (\<lambda>ua.
                Inr (Some \<lparr>timestamp = s,
                           flipsSeen = (if isFinite fs then fs else Fin 0),
                           uniqueAuthors = (if isFinite ua then ua else Fin 0)\<rparr>)))))
          | _ \<Rightarrow> Inr None))"

text \<open>
  \<^verbatim>\<open>Array.isArray(v) ? v.map(...).filter(Boolean) : []\<close>: the map runs over the whole
  array before the filter, so an exception of any element ends it.
\<close>

definition normalizePoints :: "host \<Rightarrow> jsval \<Rightarrow> js_error + ProgressPoint list" where
  "normalizePoints h v =
     (if isArray v
      then then_js (map_js (normalizePoint h) (elements v)) (\<lambda>rs. Inr (List.map_filter id rs))
      else Inr [])"

definition progressCurrentSeries :: "host \<Rightarrow> jsval \<Rightarrow> js_error + ProgressEpochSeries option" where
  "progressCurrentSeries h response =
     then_js (progressPayload response) (\<lambda>pp.
     then_js (optGet pp ''series'') (\<lambda>series.
     then_js (optGet series ''currentEpoch'') (\<lambda>v.
       if \<not> truthy v \<or> typeof v \<noteq> ''object'' then Inr None
       else
         then_js (getProp v ''epoch'') (\<lambda>e.
         then_js (getProp v ''points'') (\<lambda>ps.
         then_js (normalizePoints h ps) (\<lambda>pts.
           Inr (Some \<lparr>epoch = (case e of JNum n \<Rightarrow> n | _ \<Rightarrow> Fin 0), points = pts\<rparr>)))))))"

text \<open>The callback mapped over \<^verbatim>\<open>previousEpochs\<close>.\<close>

definition normalizeSeries :: "host \<Rightarrow> jsval \<Rightarrow> js_error + ProgressEpochSeries option" where
  "normalizeSeries h series =
     (if \<not> truthy series \<or> typeof series \<noteq> ''object'' then Inr None
      else
        then_js (getProp series ''epoch'') (\<lambda>e.
        then_js (ToNumber h (coalesce e (JNum (Fin 0)))) (\<lambda>ep.
          if \<not> isFinite ep \<or> js_le ep (Fin 0) then Inr None
          else
            then_js (getProp series ''points'') (\<lambda>ps.
            then_js (normalizePoints h ps) (\<lambda>pts.
              Inr (Some \<lparr>epoch = ep, points = pts\<rparr>))))))"

definition progressPreviousSeries :: "host \<Rightarrow> jsval \<Rightarrow> js_error + ProgressEpochSeries list" where
  "progressPreviousSeries h response =
     then_js (progressPayload response) (\<lambda>pp.
     then_js (optGet pp ''series'') (\<lambda>series.
     then_js (optGet series ''previousEpochs'') (\<lambda>rows.
       if \<not> isArray rows then Inr []
       else
         then_js (map_js (normalizeSeries h) (elements rows)) (\<lambda>rs.
           Inr (take 2 (List.map_filter id rs))))))"


definition nextSessionTime :: "jsval \<Rightarrow> js_error + string option" where
  "nextSessionTime response =
     then_js (payload response) (\<lambda>p.
     then_js (optGet p ''session'') (\<lambda>s.
     then_js (optGet s ''nextValidationTime'') (\<lambda>v.
       Inr (case v of JStr t \<Rightarrow> Some t | _ \<Rightarrow> None))))"

section \<open>Lookup and validation\<close>

text \<open>
  Strings are lists of 8-bit characters, read as the code points U+0000 to U+00FF; the
  white space and the letters with case that lie above U+00FF are outside the model.
  None of them lowercases to a character of the address pattern.
\<close>

definition isWhiteSpace :: "char \<Rightarrow> bool" where
  "isWhiteSpace c = (of_char c \<in> {9, 10, 11, 12, 13, 32, 160 :: nat})"

definition js_trim :: "string \<Rightarrow> string" where
  "js_trim s = rev (dropWhile isWhiteSpace (rev (dropWhile isWhiteSpace s)))"

definition lower_char :: "char \<Rightarrow> char" where
  "lower_char c =
     (let n = of_char c :: nat
      in if (65 \<le> n \<and> n \<le> 90) \<or> (192 \<le> n \<and> n \<le> 222 \<and> n \<noteq> 215)
         then char_of (n + 32) else c)"

definition js_toLowerCase :: "string \<Rightarrow> string" where
  "js_toLowerCase s = map lower_char s"

definition normalizedSearchAddress :: "string \<Rightarrow> string" where
  "normalizedSearchAddress searchAddress = js_toLowerCase (js_trim searchAddress)"

definition hasSearchValue :: "string \<Rightarrow> bool" where
  "hasSearchValue searchAddress = (0 < length (normalizedSearchAddress searchAddress))"

definition isLowerHex :: "char \<Rightarrow> bool" where
  "isLowerHex c = (c \<in> set ''abcdef0123456789'')"

text \<open>The test of \<^verbatim>\<open>/^0x[a-f0-9]{40}$/\<close>.\<close>

definition addressPattern :: "string \<Rightarrow> bool" where
  "addressPattern s =
     (take 2 s = ''0x'' \<and> length (drop 2 s) = 40 \<and> list_all isLowerHex (drop 2 s))"

definition isSearchAddressValid :: "string \<Rightarrow> bool" where
  "isSearchAddressValid searchAddress =
     (if \<not> hasSearchValue searchAddress then True
      else addressPattern (normalizedSearchAddress searchAddress))"

text \<open>
  \<^verbatim>\<open>foundIdentity\<close> scans the rows of \<^verbatim>\<open>identityLookup\<close>; reading \<^verbatim>\<open>row.address\<close>
  throws on a row that is \<^verbatim>\<open>null\<close>.
\<close>

definition foundIdentity :: "jsval list \<Rightarrow> string \<Rightarrow> js_error + jsval" where
  "foundIdentity rows searchAddress =
     (if \<not> hasSearchValue searchAddress \<or> \<not> isSearchAddressValid searchAddress then Inr JNull
      else
        then_js
          (find_js
             (\<lambda>row. then_js (getProp row ''address'')
                (\<lambda>a. Inr (a = JStr (normalizedSearchAddress searchAddress))))
             rows)
          (\<lambda>r. Inr (coalesce r JNull)))"

definition showSearchNotFound :: "jsval list \<Rightarrow> string \<Rightarrow> js_error + bool" where
  "showSearchNotFound rows searchAddress =
     (if \<not> hasSearchValue searchAddress then Inr False
      else if \<not> isSearchAddressValid searchAddress then Inr False
      else then_js (foundIdentity rows searchAddress) (\<lambda>f. Inr (\<not> truthy f)))"

text \<open>
  The lookup panel of the template is one chain of \<^verbatim>\<open>v-if\<close>, \<^verbatim>\<open>v-else-if\<close> branches;
  \<^verbatim>\<open>Blank\<close> stands for a chain in which no branch is taken.
\<close>

datatype search_panel = NoQuery | InvalidFormat | Found jsval | NotFound | Blank

definition searchPanel :: "jsval list \<Rightarrow> string \<Rightarrow> js_error + search_panel" where
  "searchPanel rows searchAddress =
     (if \<not> hasSearchValue searchAddress then Inr NoQuery
      else if \<not> isSearchAddressValid searchAddress then Inr InvalidFormat
      else
        then_js (foundIdentity rows searchAddress) (\<lambda>f.
          if truthy f then Inr (Found f)
          else
            then_js (showSearchNotFound rows searchAddress) (\<lambda>b.
              Inr (if b then NotFound else Blank))))"

section \<open>Freshness clock\<close>

definition padStart :: "nat \<Rightarrow> char \<Rightarrow> string \<Rightarrow> string" where
  "padStart n c s = replicate (n - length s) c @ s"

definition formatDuration :: "host \<Rightarrow> jsnum \<Rightarrow> string" where
  "formatDuration h totalSeconds =
     (let safe = Math_max [Fin 0, Math_floor totalSeconds];
          days = Math_floor (js_div safe (Fin 86400));
          hours = Math_floor (js_div (js_mod safe (Fin 86400)) (Fin 3600));
          minutes = Math_floor (js_div (js_mod safe (Fin 3600)) (Fin 60));
          seconds = js_mod safe (Fin 60)
      in Number_toString h days @ ''d ''
         @ padStart 2 (CHR ''0'') (Number_toString h hours) @ ''h ''
         @ padStart 2 (CHR ''0'') (Number_toString h minutes) @ ''m ''
         @ padStart 2 (CHR ''0'') (Number_toString h seconds) @ ''s'')"

text \<open>\<^verbatim>\<open>nowMs\<close> is the last \<^verbatim>\<open>Date.now()\<close> the timer stored, a finite Number.\<close>

definition secondsUntilNextSession :: "host \<Rightarrow> real \<Rightarrow> jsval \<Rightarrow> js_error + jsnum option" where
  "secondsUntilNextSession h nowMs response =
     then_js (nextSessionTime response) (\<lambda>iso.
       case iso of
         None \<Rightarrow> Inr None
       | Some s \<Rightarrow>
           if s = [] then Inr None
           else
             (let ms = Date_parse h s
              in if \<not> isFinite ms then Inr None
                 else Inr (Some (Math_floor (js_div (js_sub ms (Fin nowMs)) (Fin 1000))))))"

definition nextSessionCountdownLabel :: "host \<Rightarrow> real \<Rightarrow> jsval \<Rightarrow> js_error + string" where
  "nextSessionCountdownLabel h nowMs response =
     then_js (secondsUntilNextSession h nowMs response) (\<lambda>seconds.
       case seconds of
         None \<Rightarrow> Inr ''Unavailable''
       | Some n \<Rightarrow>
           if js_le n (Fin 0) then Inr ''Session started''
           else Inr (formatDuration h n))"

section \<open>Chart geometry\<close>

text \<open>The field \<^verbatim>\<open>value\<close> of a chart point is \<open>cvalue\<close> here.\<close>

record ChartPoint =
  elapsedSeconds :: jsnum
  cvalue :: jsnum

record ChartLine =
  line_epoch :: jsnum
  path :: string
  opacity :: real

record MetricChart =
  currentPath :: string
  trailingPaths :: "ChartLine list"
  maxValue :: jsnum
  maxElapsedSeconds :: jsnum
  latestValue :: jsnum

definition CHART_WIDTH :: jsnum where
  "CHART_WIDTH = Fin 720"

definition CHART_HEIGHT :: jsnum where
  "CHART_HEIGHT = Fin 220"

text \<open>
  \<^verbatim>\<open>x.toFixed(2)\<close>: below \<open>10\<^sup>2\<^sup>1\<close> the magnitude is rounded to hundredths, a tie going
  up, and printed with two decimals; from \<open>10\<^sup>2\<^sup>1\<close> on it is printed as
  \<^verbatim>\<open>Number::toString\<close> prints it.
\<close>

definition toFixed2 :: "host \<Rightarrow> jsnum \<Rightarrow> string" where
  "toFixed2 h n =
     (case n of
        Fin x \<Rightarrow>
          (if x < 0 then ''-'' else []) @
          (if 10 ^ 21 \<le> \<bar>x\<bar> then Number_toString h (Fin \<bar>x\<bar>)
           else
             (let m = decimal (nat \<lfloor>\<bar>x\<bar> * 100 + 1 / 2\<rfloor>);
                  m' = replicate (3 - length m) (CHR ''0'') @ m
              in take (length m' - 2) m' @ ''.'' @ drop (length m' - 2) m'))
      | _ \<Rightarrow> Number_toString h n)"

definition toChartPoints ::
  "host \<Rightarrow> ProgressPoint list \<Rightarrow> (ProgressPoint \<Rightarrow> jsnum) \<Rightarrow> ChartPoint list" where
  "toChartPoints h pts selector =
     (case pts of
        [] \<Rightarrow> []
      | p0 # rest \<Rightarrow>
          (let baseTime = Date_parse h (timestamp p0)
           in if \<not> isFinite baseTime then []
              else
                List.map_filter
                  (\<lambda>point.
                     let ts = Date_parse h (timestamp point)
                     in if \<not> isFinite ts then None
                        else Some \<lparr>elapsedSeconds =
                                     Math_max [Fin 0, js_div (js_sub ts baseTime) (Fin 1000)],
                                   cvalue = selector point\<rparr>)
                  pts))"

text \<open>\<^verbatim>\<open>Array.prototype.join\<close> of strings.\<close>

fun js_join :: "string \<Rightarrow> string list \<Rightarrow> string" where
  "js_join sep [] = []"
| "js_join sep [x] = x"
| "js_join sep (x # y # ys) = x @ sep @ js_join sep (y # ys)"

definition buildLinePath :: "host \<Rightarrow> ChartPoint list \<Rightarrow> jsnum \<Rightarrow> jsnum \<Rightarrow> string" where
  "buildLinePath h pts maxElapsed maxVal =
     (if length pts = 0 then []
      else
        (let safeMaxElapsed = (if js_less (Fin 0) maxElapsed then maxElapsed else Fin 1);
             safeMax = (if js_less (Fin 0) maxVal then maxVal else Fin 1)
         in if length pts = 1
            then
              (let y = js_sub CHART_HEIGHT (js_mul (js_div (cvalue (pts ! 0)) safeMax) CHART_HEIGHT)
               in ''M0 '' @ toFixed2 h y @ '' L'' @ Number_toString h CHART_WIDTH @ '' ''
                  @ toFixed2 h y)
            else
              js_join '' ''
                (map
                   (\<lambda>(index, point).
                      let x = js_mul (js_div (elapsedSeconds point) safeMaxElapsed) CHART_WIDTH;
                          y = js_sub CHART_HEIGHT
                                (js_mul (js_div (cvalue point) safeMax) CHART_HEIGHT)
                      in (if index = 0 then ''M'' else ''L'') @ toFixed2 h x @ '' ''
                         @ toFixed2 h y)
                   (enumerate 0 pts))))"

text \<open>
  \<^verbatim>\<open>buildMetricChart\<close> reads the two series computeds; here they are its arguments.
  The two maxima are calls of \<^verbatim>\<open>Math.max\<close> with the values of all chart points spread
  into the arguments.
\<close>

definition buildMetricChart ::
  "host \<Rightarrow> (ProgressPoint \<Rightarrow> jsnum) \<Rightarrow> ProgressEpochSeries option \<Rightarrow> ProgressEpochSeries list
     \<Rightarrow> js_error + MetricChart" where
  "buildMetricChart h selector currentSeries previousSeries =
     (let currentPoints =
            toChartPoints h (case currentSeries of None \<Rightarrow> [] | Some s \<Rightarrow> points s) selector;
          trailingSeries =
            map (\<lambda>series. (epoch series, toChartPoints h (points series) selector))
              previousSeries;
          allSeries = currentPoints # map snd trailingSeries
      in then_js (Math_max_spread h (Fin 1 # concat (map (map elapsedSeconds) allSeries)))
           (\<lambda>maxElapsed.
         then_js (Math_max_spread h (Fin 1 # concat (map (map cvalue) allSeries)))
           (\<lambda>maxVal.
           Inr \<lparr>currentPath = buildLinePath h currentPoints maxElapsed maxVal,
                trailingPaths =
                  map (\<lambda>(index, series).
                         \<lparr>line_epoch = fst series,
                          path = buildLinePath h (snd series) maxElapsed maxVal,
                          opacity = (if index = (0 :: nat) then 45 / 100 else 24 / 100)\<rparr>)
                    (enumerate 0 trailingSeries),
                maxValue = maxVal,
                maxElapsedSeconds = maxElapsed,
                latestValue =
                  (if length currentPoints \<noteq> 0 then cvalue (last currentPoints)
                   else Fin 0)\<rparr>)))"

definition flipsChart :: "host \<Rightarrow> jsval \<Rightarrow> js_error + MetricChart" where
  "flipsChart h response =
     then_js (progressCurrentSeries h response) (\<lambda>cur.
     then_js (progressPreviousSeries h response) (\<lambda>prev.
       buildMetricChart h flipsSeen cur prev))"

definition authorsChart :: "host \<Rightarrow> jsval \<Rightarrow> js_error + MetricChart" where
  "authorsChart h response =
     then_js (progressCurrentSeries h response) (\<lambda>cur.
     then_js (progressPreviousSeries h response) (\<lambda>prev.
       buildMetricChart h uniqueAuthors cur prev))"

text \<open>The local \<^verbatim>\<open>allSeries\<close> of \<^verbatim>\<open>buildMetricChart\<close>: the current points, then the trailing ones.\<close>

definition allSeries ::
  "host \<Rightarrow> (ProgressPoint \<Rightarrow> jsnum) \<Rightarrow> ProgressEpochSeries option \<Rightarrow> ProgressEpochSeries list
     \<Rightarrow> ChartPoint list list" where
  "allSeries h selector currentSeries previousSeries =
     toChartPoints h (case currentSeries of None \<Rightarrow> [] | Some s \<Rightarrow> points s) selector
     # map (\<lambda>series. toChartPoints h (points series) selector) previousSeries"

section \<open>A host for the examples\<close>

text \<open>
  The examples below are evaluated under a host that agrees with the built-ins on the
  strings the examples use: the empty string and strings of decimal digits for
  \<^verbatim>\<open>StringToNumber\<close>, strings that are no dates and the timestamps
  \<^verbatim>\<open>1970-01-01T00:MM:SSZ\<close> of the first hour of the epoch for \<^verbatim>\<open>Date.parse\<close>. Its
  limits are of the order of those of a current engine: a thousand nested conversions,
  strings of \<open>2\<^sup>2\<^sup>9 - 24\<close> characters, 125000 arguments.
\<close>

definition isDigit :: "char \<Rightarrow> bool" where
  "isDigit c = (c \<in> set ''0123456789'')"

definition digit_value :: "char \<Rightarrow> nat" where
  "digit_value c = of_char c - 48"

definition digits_value :: "string \<Rightarrow> nat" where
  "digits_value s = foldl (\<lambda>a c. 10 * a + digit_value c) 0 s"

definition example_StringToNumber :: "string \<Rightarrow> jsnum" where
  "example_StringToNumber s =
     (if s = [] then Fin 0
      else if list_all isDigit s then Fin (of_nat (digits_value s))
      else NaN)"

definition example_Date_parse :: "string \<Rightarrow> jsnum" where
  "example_Date_parse s =
     (if length s = 20 \<and> take 14 s = ''1970-01-01T00:'' \<and> s ! 16 = CHR '':''
         \<and> s ! 19 = CHR ''Z'' \<and> list_all isDigit [s ! 14, s ! 15, s ! 17, s ! 18]
         \<and> digits_value [s ! 14, s ! 15] < 60 \<and> digits_value [s ! 17, s ! 18] < 60
      then Fin (of_nat ((digits_value [s ! 14, s ! 15] * 60 + digits_value [s ! 17, s ! 18]) * 1000))
      else NaN)"

definition example_host :: host where
  "example_host =
     \<lparr>StringToNumber = example_StringToNumber,
      NumberToStringOther = (\<lambda>x. ''1e+21''),
      Date_parse = example_Date_parse,
      stack_depth = 1000,
      max_string_length = 536870888,
      max_arguments = 125000\<rparr>"

section \<open>Values whose conversion cannot throw\<close>


section \<open>The server handler\<close>

text \<open>
  What \<^verbatim>\<open>server/api/scan.ts\<close> answers when the scan succeeded: the decoded file as
  \<^verbatim>\<open>data\<close>.
\<close>

definition scan_success :: "jsval \<Rightarrow> jsval" where
  "scan_success content = JObj [(''success'', JBool True), (''data'', content)]"

section \<open>Notions used in the statements\<close>

text \<open>The value of \<^verbatim>\<open>v?.k\<close>, for a statement that names a field of the snapshot.\<close>

definition field :: "jsval \<Rightarrow> string \<Rightarrow> jsval" where
  "field v k =
     (case v of
        JObj ps \<Rightarrow> (case map_of ps k of None \<Rightarrow> JUndefined | Some w \<Rightarrow> w)
      | _ \<Rightarrow> JUndefined)"

text \<open>
  What the specification says of the normalized sequences, written as functions of the
  source lists, to be compared with the normalizer: the points that are kept, the
  counter of a kept point, the previous epochs that are kept.
\<close>

definition spec_keeps_point :: "jsval \<Rightarrow> bool" where
  "spec_keeps_point x =
     (truthy x \<and> typeof x = ''object''
      \<and> (case field x ''timestamp'' of JStr s \<Rightarrow> True | _ \<Rightarrow> False))"

definition spec_counter :: "host \<Rightarrow> jsval \<Rightarrow> jsnum" where
  "spec_counter h v =
     (case ToNumber h (coalesce v (JNum (Fin 0))) of
        Inr n \<Rightarrow> (if isFinite n then n else Fin 0)
      | Inl e \<Rightarrow> Fin 0)"

definition spec_point :: "host \<Rightarrow> jsval \<Rightarrow> ProgressPoint" where
  "spec_point h x =
     \<lparr>timestamp = (case field x ''timestamp'' of JStr s \<Rightarrow> s | _ \<Rightarrow> []),
      flipsSeen = spec_counter h (field x ''flipsSeen''),
      uniqueAuthors = spec_counter h (field x ''uniqueAuthors'')\<rparr>"

definition spec_points :: "host \<Rightarrow> jsval list \<Rightarrow> ProgressPoint list" where
  "spec_points h xs = map (spec_point h) (filter spec_keeps_point xs)"

definition spec_epoch :: "host \<Rightarrow> jsval \<Rightarrow> jsnum" where
  "spec_epoch h x =
     (case ToNumber h (coalesce (field x ''epoch'') (JNum (Fin 0))) of
        Inr n \<Rightarrow> n
      | Inl e \<Rightarrow> NaN)"

definition spec_keeps_series :: "host \<Rightarrow> jsval \<Rightarrow> bool" where
  "spec_keeps_series h x =
     (truthy x \<and> typeof x = ''object'' \<and> isFinite (spec_epoch h x)
      \<and> js_less (Fin 0) (spec_epoch h x))"

definition spec_series :: "host \<Rightarrow> jsval \<Rightarrow> ProgressEpochSeries" where
  "spec_series h x =
     \<lparr>epoch = spec_epoch h x, points = spec_points h (elements (field x ''points''))\<rparr>"

definition spec_previous :: "host \<Rightarrow> jsval list \<Rightarrow> ProgressEpochSeries list" where
  "spec_previous h rows = take 2 (map (spec_series h) (filter (spec_keeps_series h) rows))"



text \<open>A Number that is a positive integer.\<close>

definition isPositiveInteger :: "jsnum \<Rightarrow> bool" where
  "isPositiveInteger n = (case n of Fin x \<Rightarrow> 0 < x \<and> x = of_int \<lfloor>x\<rfloor> | _ \<Rightarrow> False)"

text \<open>A number below 100 written with two digits.\<close>

definition two_digits :: "nat \<Rightarrow> string" where
  "two_digits n = [digit_char (n div 10), digit_char (n mod 10)]"

text \<open>The move and line commands of a path, in their order.\<close>

definition commands :: "string \<Rightarrow> string" where
  "commands p = filter (\<lambda>c. c = CHR ''M'' \<or> c = CHR ''L'') p"

text \<open>
  What is known of the text of a Number that the model does not compute: it is made of
  digits, a point, an exponent mark and signs.
\<close>

definition numeric_text :: "host \<Rightarrow> bool" where
  "numeric_text h = (\<forall>x. set (NumberToStringOther h x) \<subseteq> set ''0123456789.e+-'')"

text \<open>A text with no command letter and no blank.\<close>

definition plain :: "string \<Rightarrow> bool" where
  "plain s = (CHR ''M'' \<notin> set s \<and> CHR ''L'' \<notin> set s \<and> CHR '' '' \<notin> set s)"

section \<open>Properties\<close>

subsection \<open>Reading the snapshot never throws\<close>

lemma then_js_Inr [simp]: "then_js (Inr x) f = f x"
  by (simp add: then_js_def)

lemma then_js_Inl [simp]: "then_js (Inl e) f = Inl e"
  by (simp add: then_js_def)

lemma optGet_field [simp]: "optGet v k = Inr (field v k)"
  by (cases v) (simp_all add: optGet_def nullish_def field_def)

lemma getProp_field: "\<not> nullish v \<Longrightarrow> getProp v k = Inr (field v k)"
  by (cases v) (simp_all add: nullish_def field_def)

lemma truthy_not_nullish: "truthy v \<Longrightarrow> \<not> nullish v"
  by (cases v) (simp_all add: nullish_def)

lemma getProp_truthy [simp]: "truthy v \<Longrightarrow> getProp v k = Inr (field v k)"
  by (simp add: getProp_field truthy_not_nullish)

lemma payload_eq: "payload r = Inr (coalesce (field r ''data'') JNull)"
  by (simp add: payload_def)

lemma gradeLeaderboard_eq:
  "gradeLeaderboard r =
     Inr (let v = field (coalesce (field r ''data'') JNull) ''gradeLeaderboard''
          in if truthy v \<and> typeof v = ''object'' then v else JNull)"
  by (simp add: gradeLeaderboard_def payload_eq Let_def)

lemma progressPayload_eq:
  "progressPayload r =
     Inr (let v = field (coalesce (field r ''data'') JNull) ''progress''
          in if truthy v \<and> typeof v = ''object'' then v else JNull)"
  by (simp add: progressPayload_def payload_eq Let_def)

lemma topIdentities_total: "\<exists>t. topIdentities r = Inr t"
  by (simp add: topIdentities_def gradeLeaderboard_eq)




subsection \<open>The identity lookup and its fallback\<close>

text \<open>
  Claim C3. For every response, \<^verbatim>\<open>identityLookup\<close> returns; with \<open>src\<close> the
  \<^verbatim>\<open>identityLookup\<close> field of the leaderboard, it is \<^verbatim>\<open>topIdentities\<close> when \<open>src\<close> is
  absent, not an array or an empty array, and otherwise the elements of \<open>src\<close> as they
  are, in the same number.
\<close>

theorem identityLookup_fallback:
  "\<exists>g src top.
     gradeLeaderboard r = Inr g \<and> optGet g ''identityLookup'' = Inr src
     \<and> topIdentities r = Inr top
     \<and> (src = JUndefined \<or> \<not> isArray src \<or> src = JArr [] \<longrightarrow> identityLookup r = Inr top)
     \<and> (\<forall>xs. src = JArr xs \<and> xs \<noteq> [] \<longrightarrow>
           (\<exists>out. identityLookup r = Inr out \<and> out = xs \<and> length out = length xs))"
proof -
  obtain g where g: "gradeLeaderboard r = Inr g"
    by (simp add: gradeLeaderboard_eq)
  obtain top where top: "topIdentities r = Inr top"
    using topIdentities_total by blast
  define src where "src = field g ''identityLookup''"
  have fallback: "identityLookup r = Inr top"
    if "src = JUndefined \<or> \<not> isArray src \<or> src = JArr []"
    using that g top by (auto simp add: identityLookup_def src_def)
  have verbatim: "identityLookup r = Inr xs" if "src = JArr xs" "xs \<noteq> []" for xs
    using that g by (simp add: identityLookup_def src_def)
  show ?thesis
    using g top fallback verbatim by (auto simp add: src_def)
qed

theorem identityLookup_fallback_witness:
  "identityLookup
     (scan_success (JObj [(''gradeLeaderboard'',
        JObj [(''topIdentities'', JArr [JStr ''a'']), (''identityLookup'', JArr [])])]))
     = Inr [JStr ''a'']
   \<and> identityLookup
     (scan_success (JObj [(''gradeLeaderboard'',
        JObj [(''topIdentities'', JArr [JStr ''a'']),
              (''identityLookup'', JArr [JStr ''b'', JStr ''c''])])]))
     = Inr [JStr ''b'', JStr ''c'']"
  using
    identityLookup_fallback [of "scan_success (JObj [(''gradeLeaderboard'',
        JObj [(''topIdentities'', JArr [JStr ''a'']), (''identityLookup'', JArr [])])])"]
    identityLookup_fallback [of "scan_success (JObj [(''gradeLeaderboard'',
        JObj [(''topIdentities'', JArr [JStr ''a'']),
              (''identityLookup'', JArr [JStr ''b'', JStr ''c''])])])"]
  by (auto simp add: scan_success_def gradeLeaderboard_eq topIdentities_def field_def
      coalesce_def nullish_def)

subsection \<open>Timestamps that do not parse\<close>

lemma map_filter_unless:
  "List.map_filter (\<lambda>x. if \<not> Q x then None else Some (f x)) xs = map f (filter Q xs)"
  by (induction xs) (simp_all add: map_filter_simps)

lemma toChartPoints_Cons:
  "toChartPoints h (p0 # rest) sel =
     (if \<not> isFinite (Date_parse h (timestamp p0)) then []
      else map (\<lambda>p. \<lparr>elapsedSeconds =
                        Math_max [Fin 0, js_div (js_sub (Date_parse h (timestamp p))
                                                   (Date_parse h (timestamp p0))) (Fin 1000)],
                      cvalue = sel p\<rparr>)
             (filter (\<lambda>p. isFinite (Date_parse h (timestamp p))) (p0 # rest)))"
  unfolding toChartPoints_def Let_def list.case map_filter_unless ..

lemma normalizePoint_timestamp_only:
  "normalizePoint h (JObj [(''timestamp'', JStr s)]) =
     Inr (Some \<lparr>timestamp = s, flipsSeen = Fin 0, uniqueAuthors = Fin 0\<rparr>)"
  by (simp add: normalizePoint_def field_def coalesce_def nullish_def)

text \<open>
  Claim C10. Normalization keeps a point with any string timestamp. In the conversion
  to chart points, a first point whose timestamp does not parse to a finite time gives
  the empty list, hence the empty path, whatever the later points are; and when the
  first point parses, the result holds exactly the points whose own timestamp parses,
  in their order.
\<close>

theorem toChartPoints_unparsable:
  "normalizePoint h (JObj [(''timestamp'', JStr s)]) =
     Inr (Some \<lparr>timestamp = s, flipsSeen = Fin 0, uniqueAuthors = Fin 0\<rparr>)
   \<and> (pts \<noteq> [] \<and> \<not> isFinite (Date_parse h (timestamp (hd pts))) \<longrightarrow>
        toChartPoints h pts sel = []
        \<and> buildLinePath h (toChartPoints h pts sel) maxElapsed maxVal = [])
   \<and> (pts \<noteq> [] \<and> isFinite (Date_parse h (timestamp (hd pts))) \<longrightarrow>
        toChartPoints h pts sel =
          map (\<lambda>p. \<lparr>elapsedSeconds =
                       Math_max [Fin 0, js_div (js_sub (Date_parse h (timestamp p))
                                                  (Date_parse h (timestamp (hd pts)))) (Fin 1000)],
                     cvalue = sel p\<rparr>)
            (filter (\<lambda>p. isFinite (Date_parse h (timestamp p))) pts))"
proof (cases pts)
  case Nil
  then show ?thesis by (simp add: normalizePoint_timestamp_only)
next
  case (Cons p0 rest)
  show ?thesis
    unfolding Cons
    by (simp only: normalizePoint_timestamp_only toChartPoints_Cons list.sel)
      (simp add: buildLinePath_def)
qed

lemma example_parse_soon: "Date_parse example_host ''soon'' = NaN"
  by (simp add: example_host_def example_Date_parse_def)

lemma example_parse_0: "Date_parse example_host ''1970-01-01T00:00:00Z'' = Fin 0"
  by (simp add: example_host_def example_Date_parse_def isDigit_def digits_value_def
      digit_value_def)

lemma example_parse_90: "Date_parse example_host ''1970-01-01T00:01:30Z'' = Fin 90000"
  by (simp add: example_host_def example_Date_parse_def isDigit_def digits_value_def
      digit_value_def)

theorem toChartPoints_unparsable_witness:
  "toChartPoints example_host
     [\<lparr>timestamp = ''soon'', flipsSeen = Fin 1, uniqueAuthors = Fin 1\<rparr>,
      \<lparr>timestamp = ''1970-01-01T00:01:30Z'', flipsSeen = Fin 2, uniqueAuthors = Fin 1\<rparr>]
     flipsSeen = []
   \<and> toChartPoints example_host
     [\<lparr>timestamp = ''1970-01-01T00:00:00Z'', flipsSeen = Fin 1, uniqueAuthors = Fin 1\<rparr>,
      \<lparr>timestamp = ''soon'', flipsSeen = Fin 2, uniqueAuthors = Fin 1\<rparr>,
      \<lparr>timestamp = ''1970-01-01T00:01:30Z'', flipsSeen = Fin 3, uniqueAuthors = Fin 1\<rparr>]
     flipsSeen
     = [\<lparr>elapsedSeconds = Fin 0, cvalue = Fin 1\<rparr>, \<lparr>elapsedSeconds = Fin 90, cvalue = Fin 3\<rparr>]"
  using
    toChartPoints_unparsable [where h = example_host and sel = flipsSeen and pts =
      "[\<lparr>timestamp = ''soon'', flipsSeen = Fin 1, uniqueAuthors = Fin 1\<rparr>,
        \<lparr>timestamp = ''1970-01-01T00:01:30Z'', flipsSeen = Fin 2, uniqueAuthors = Fin 1\<rparr>]"]
    toChartPoints_unparsable [where h = example_host and sel = flipsSeen and pts =
      "[\<lparr>timestamp = ''1970-01-01T00:00:00Z'', flipsSeen = Fin 1, uniqueAuthors = Fin 1\<rparr>,
        \<lparr>timestamp = ''soon'', flipsSeen = Fin 2, uniqueAuthors = Fin 1\<rparr>,
        \<lparr>timestamp = ''1970-01-01T00:01:30Z'', flipsSeen = Fin 3, uniqueAuthors = Fin 1\<rparr>]"]
  by (simp add: example_parse_soon example_parse_0 example_parse_90 Math_max_def js_max_def)


subsection \<open>Conversions that cannot throw\<close>



lemma map_js_total:
  "\<forall>x \<in> set xs. \<exists>y. f x = Inr y \<Longrightarrow> \<exists>ys. map_js f xs = Inr ys"
  by (induction xs) auto

lemma map_js_Inr:
  "map_js f xs = Inr ys \<Longrightarrow> list_all2 (\<lambda>x y. f x = Inr y) xs ys"
  by (induction xs arbitrary: ys) (auto split: sum.splits)

subsection \<open>The normalized sequences\<close>











subsection \<open>What the normalizer does with malformed input\<close>

lemmas eval_simps =
  scan_success_def field_def coalesce_def nullish_def payload_eq gradeLeaderboard_eq
  progressPayload_eq progressCurrentSeries_def progressPreviousSeries_def normalizePoints_def
  normalizePoint_def normalizeSeries_def Let_def map_filter_simps js_le_def example_host_def
  example_StringToNumber_def isDigit_def digits_value_def digit_value_def




subsection \<open>Counters and epochs whose conversion throws\<close>

text \<open>
  Claim C2 at a list of two points with string timestamps, the second with a
  \<^verbatim>\<open>flipsSeen\<close> that is an object with an own \<^verbatim>\<open>toString\<close> property. The claim keeps
  both points, the second with the counter 0; the computed throws, and no point is kept.
\<close>

theorem progressCurrentSeries_counter_throws:
  "progressCurrentSeries example_host (scan_success (JObj
      [(''progress'', JObj [(''series'', JObj [(''currentEpoch'', JObj
         [(''epoch'', JNum (Fin 7)),
          (''points'', JArr
             [JObj [(''timestamp'', JStr ''1970-01-01T00:00:00Z''), (''flipsSeen'', JNum (Fin 3))],
              JObj [(''timestamp'', JStr ''1970-01-01T00:01:30Z''),
                    (''flipsSeen'', JObj [(''toString'', JNum (Fin 1))])]])])])])]))
     = Inl TypeError
   \<and> spec_points example_host
       [JObj [(''timestamp'', JStr ''1970-01-01T00:00:00Z''), (''flipsSeen'', JNum (Fin 3))],
        JObj [(''timestamp'', JStr ''1970-01-01T00:01:30Z''),
              (''flipsSeen'', JObj [(''toString'', JNum (Fin 1))])]]
     = [\<lparr>timestamp = ''1970-01-01T00:00:00Z'', flipsSeen = Fin 3, uniqueAuthors = Fin 0\<rparr>,
        \<lparr>timestamp = ''1970-01-01T00:01:30Z'', flipsSeen = Fin 0, uniqueAuthors = Fin 0\<rparr>]"
  by (simp add: eval_simps spec_points_def spec_keeps_point_def spec_point_def spec_counter_def)

theorem progressCurrentSeries_counter_throws_witness:
  "\<not> (\<exists>c. progressCurrentSeries example_host (scan_success (JObj
      [(''progress'', JObj [(''series'', JObj [(''currentEpoch'', JObj
         [(''epoch'', JNum (Fin 7)),
          (''points'', JArr
             [JObj [(''timestamp'', JStr ''1970-01-01T00:00:00Z''), (''flipsSeen'', JNum (Fin 3))],
              JObj [(''timestamp'', JStr ''1970-01-01T00:01:30Z''),
                    (''flipsSeen'', JObj [(''toString'', JNum (Fin 1))])]])])])])])) = Inr c)"
  using progressCurrentSeries_counter_throws by simp

text \<open>
  Claim C7 at a list of two entries, the second with an \<^verbatim>\<open>epoch\<close> that is an object
  with an own \<^verbatim>\<open>toString\<close> property. The claim keeps the first entry alone; the
  computed throws, and no entry is kept.
\<close>

theorem progressPreviousSeries_epoch_throws:
  "progressPreviousSeries example_host (scan_success (JObj
      [(''progress'', JObj [(''series'', JObj [(''previousEpochs'', JArr
         [JObj [(''epoch'', JNum (Fin 12)), (''points'', JArr [])],
          JObj [(''epoch'', JObj [(''toString'', JNum (Fin 1))]), (''points'', JArr [])]])])])]))
     = Inl TypeError
   \<and> spec_previous example_host
       [JObj [(''epoch'', JNum (Fin 12)), (''points'', JArr [])],
        JObj [(''epoch'', JObj [(''toString'', JNum (Fin 1))]), (''points'', JArr [])]]
     = [\<lparr>epoch = Fin 12, points = []\<rparr>]"
  by (simp add: eval_simps spec_previous_def spec_keeps_series_def spec_series_def
      spec_epoch_def spec_points_def)

theorem progressPreviousSeries_epoch_throws_witness:
  "\<not> (\<exists>p. progressPreviousSeries example_host (scan_success (JObj
      [(''progress'', JObj [(''series'', JObj [(''previousEpochs'', JArr
         [JObj [(''epoch'', JNum (Fin 12)), (''points'', JArr [])],
          JObj [(''epoch'', JObj [(''toString'', JNum (Fin 1))]), (''points'', JArr [])]])])])]))
     = Inr p)"
  using progressPreviousSeries_epoch_throws by simp

subsection \<open>The epoch of a normalized series\<close>

lemma set_map_filter_id: "set (List.map_filter id rs) = {s. Some s \<in> set rs}"
  by (induction rs) (auto simp add: map_filter_simps split: option.splits)

lemma normalizeSeries_Some:
  assumes "normalizeSeries h x = Inr (Some s)"
  shows "\<exists>e. epoch s = Fin e \<and> 0 < e"
proof -
  obtain ep where ep: "isFinite ep" "\<not> js_le ep (Fin 0)" "epoch s = ep"
    using assms
    by (auto simp add: normalizeSeries_def then_js_def split: if_splits sum.splits)
  then show ?thesis
    by (cases ep) (auto simp add: js_le_def)
qed

lemma progressPreviousSeries_epochs:
  assumes "progressPreviousSeries h r = Inr out" and "s \<in> set out"
  shows "\<exists>e. epoch s = Fin e \<and> 0 < e"
proof -
  obtain pp where pp: "progressPayload r = Inr pp"
    by (simp add: progressPayload_eq)
  define rows where "rows = field (field pp ''series'') ''previousEpochs''"
  show ?thesis
  proof (cases "isArray rows")
    case False
    then have "out = []"
      using assms(1) by (simp add: progressPreviousSeries_def pp rows_def [symmetric])
    then show ?thesis using assms(2) by simp
  next
    case True
    then obtain rs where rs: "map_js (normalizeSeries h) (elements rows) = Inr rs"
      and out: "out = take 2 (List.map_filter id rs)"
      using assms(1)
      by (auto simp add: progressPreviousSeries_def pp rows_def [symmetric] then_js_def
          split: sum.splits)
    have "s \<in> set (List.map_filter id rs)"
      using assms(2) out by (auto dest: in_set_takeD)
    then have "Some s \<in> set rs"
      by (simp add: set_map_filter_id)
    then obtain x where "normalizeSeries h x = Inr (Some s)"
      using map_js_Inr [OF rs] by (auto simp add: list_all2_conv_all_nth in_set_conv_nth)
    then show ?thesis by (rule normalizeSeries_Some)
  qed
qed

lemma progressCurrentSeries_epoch:
  assumes "progressCurrentSeries h r = Inr (Some cur)" and "progressPayload r = Inr pp"
  shows "epoch cur =
           (case field (field (field pp ''series'') ''currentEpoch'') ''epoch'' of
              JNum n \<Rightarrow> n
            | _ \<Rightarrow> Fin 0)"
  using assms
  by (auto simp add: progressCurrentSeries_def then_js_def split: if_splits sum.splits)

text \<open>
  Claim C8, as the code has it. Every previous series has a finite epoch above 0, which
  need not be an integer. The current series carries the \<^verbatim>\<open>epoch\<close> of its source when
  that is a Number, whatever Number it is, and 0 otherwise.
\<close>

theorem series_epoch_range:
  "(progressPreviousSeries h r = Inr out \<longrightarrow>
      (\<forall>s \<in> set out. \<exists>e. epoch s = Fin e \<and> 0 < e))
   \<and> (progressCurrentSeries h r = Inr (Some cur) \<longrightarrow>
      (\<exists>pp. progressPayload r = Inr pp
         \<and> epoch cur =
             (case field (field (field pp ''series'') ''currentEpoch'') ''epoch'' of
                JNum n \<Rightarrow> n
              | _ \<Rightarrow> Fin 0)))"
proof -
  obtain pp where pp: "progressPayload r = Inr pp"
    by (simp add: progressPayload_eq)
  show ?thesis
    using progressPreviousSeries_epochs [of h r out] progressCurrentSeries_epoch [of h r cur pp] pp
    by blast
qed

theorem series_epoch_range_witness:
  "progressPreviousSeries example_host (scan_success (JObj
      [(''progress'', JObj [(''series'', JObj
         [(''currentEpoch'', JObj [(''epoch'', JNum (Fin (- 3))), (''points'', JArr [])]),
          (''previousEpochs'', JArr
             [JObj [(''epoch'', JStr ''12'')], JObj [(''epoch'', JNum (Fin 0))],
              JObj [(''epoch'', JNum (Fin (3 / 2)))], JObj [(''epoch'', JNum (Fin 9))]])])])]))
     = Inr [\<lparr>epoch = Fin 12, points = []\<rparr>, \<lparr>epoch = Fin (3 / 2), points = []\<rparr>]
   \<and> progressCurrentSeries example_host (scan_success (JObj
      [(''progress'', JObj [(''series'', JObj
         [(''currentEpoch'', JObj [(''epoch'', JNum (Fin (- 3))), (''points'', JArr [])]),
          (''previousEpochs'', JArr
             [JObj [(''epoch'', JStr ''12'')], JObj [(''epoch'', JNum (Fin 0))],
              JObj [(''epoch'', JNum (Fin (3 / 2)))], JObj [(''epoch'', JNum (Fin 9))]])])])]))
     = Inr (Some \<lparr>epoch = Fin (- 3), points = []\<rparr>)
   \<and> list_all (\<lambda>s. \<exists>e. epoch s = Fin e \<and> 0 < e)
        [\<lparr>epoch = Fin 12, points = []\<rparr>, \<lparr>epoch = Fin (3 / 2), points = []\<rparr>]"
proof -
  define r where "r = scan_success (JObj
      [(''progress'', JObj [(''series'', JObj
         [(''currentEpoch'', JObj [(''epoch'', JNum (Fin (- 3))), (''points'', JArr [])]),
          (''previousEpochs'', JArr
             [JObj [(''epoch'', JStr ''12'')], JObj [(''epoch'', JNum (Fin 0))],
              JObj [(''epoch'', JNum (Fin (3 / 2)))], JObj [(''epoch'', JNum (Fin 9))]])])])])"
  have prev: "progressPreviousSeries example_host r =
                Inr [\<lparr>epoch = Fin 12, points = []\<rparr>, \<lparr>epoch = Fin (3 / 2), points = []\<rparr>]"
    by (simp add: r_def eval_simps)
  have cur: "progressCurrentSeries example_host r = Inr (Some \<lparr>epoch = Fin (- 3), points = []\<rparr>)"
    by (simp add: r_def eval_simps)
  show ?thesis
    using series_epoch_range [of example_host r
        "[\<lparr>epoch = Fin 12, points = []\<rparr>, \<lparr>epoch = Fin (3 / 2), points = []\<rparr>]"
        "\<lparr>epoch = Fin (- 3), points = []\<rparr>"] prev cur
    unfolding r_def [symmetric] by (simp add: list_all_iff)
qed

text \<open>
  The claim as it is written fails: a current series without a numeric \<^verbatim>\<open>epoch\<close> gets the
  epoch 0, and a previous series keeps a fractional epoch.
\<close>

theorem series_epoch_range_counterexample:
  "progressCurrentSeries example_host (scan_success (JObj
      [(''progress'', JObj [(''series'', JObj
         [(''currentEpoch'', JObj [(''points'', JArr [])])])])]))
     = Inr (Some \<lparr>epoch = Fin 0, points = []\<rparr>)
   \<and> \<not> isPositiveInteger (Fin 0)
   \<and> progressPreviousSeries example_host (scan_success (JObj
      [(''progress'', JObj [(''series'', JObj
         [(''previousEpochs'', JArr [JObj [(''epoch'', JNum (Fin (3 / 2)))]])])])]))
     = Inr [\<lparr>epoch = Fin (3 / 2), points = []\<rparr>]
   \<and> \<not> isPositiveInteger (Fin (3 / 2))"
  by (simp add: eval_simps isPositiveInteger_def)


subsection \<open>The three states of the lookup\<close>

lemma find_js_find:
  assumes "\<forall>x \<in> set (takeWhile (\<lambda>x. \<not> q x) xs). p x = Inr False"
    and "\<forall>x \<in> set xs. q x \<longrightarrow> p x = Inr True"
  shows "find_js p xs = Inr (case List.find q xs of Some x \<Rightarrow> x | None \<Rightarrow> JUndefined)"
  using assms by (induction xs) auto

lemma getProp_string_is_object: "getProp row k = Inr (JStr a) \<Longrightarrow> truthy row \<and> \<not> nullish row"
  by (cases row) (simp_all add: nullish_def)

lemma foundIdentity_rows:
  assumes "hasSearchValue s" and "isSearchAddressValid s"
    and "\<forall>row \<in> set (takeWhile
            (\<lambda>row. getProp row ''address'' \<noteq> Inr (JStr (normalizedSearchAddress s))) rows).
          \<not> nullish row"
  shows "foundIdentity rows s =
           Inr (case List.find
                       (\<lambda>row. getProp row ''address'' = Inr (JStr (normalizedSearchAddress s))) rows
                of Some row \<Rightarrow> row | None \<Rightarrow> JNull)"
proof -
  let ?q = "\<lambda>row. getProp row ''address'' = Inr (JStr (normalizedSearchAddress s))"
  let ?p = "\<lambda>row. then_js (getProp row ''address'')
                     (\<lambda>a. Inr (a = JStr (normalizedSearchAddress s)))"
  have before: "\<forall>row \<in> set (takeWhile (\<lambda>row. \<not> ?q row) rows). ?p row = Inr False"
  proof
    fix row
    assume row: "row \<in> set (takeWhile (\<lambda>row. \<not> ?q row) rows)"
    then have "\<not> nullish row" and "\<not> ?q row"
      using assms(3) by (auto dest: set_takeWhileD)
    then show "?p row = Inr False"
      by (simp add: getProp_field)
  qed
  have at: "\<forall>row \<in> set rows. ?q row \<longrightarrow> ?p row = Inr True"
    by simp
  have "find_js ?p rows = Inr (case List.find ?q rows of Some x \<Rightarrow> x | None \<Rightarrow> JUndefined)"
    using before at by (rule find_js_find)
  moreover have "\<not> nullish row" if "List.find ?q rows = Some row" for row
    using that getProp_string_is_object by (auto simp add: find_Some_iff)
  ultimately show ?thesis
    using assms(1,2)
    by (auto simp add: foundIdentity_def coalesce_def nullish_def split: option.splits)
qed

text \<open>
  Claim C6, as the code has it. With the input trimmed and lowercased: an empty input
  shows the no-query state; a non-empty input that does not match the address pattern
  shows the invalid-format state; a well-formed address shows the first row whose
  address is the normalized input, or the not-found state when there is none, provided
  that no element of the lookup sequence before that row is \<^verbatim>\<open>null\<close> or \<^verbatim>\<open>undefined\<close>.
  The not-found state is shown for no empty and no invalid input, and the panel is
  never left without a state.
\<close>

theorem search_states:
  "(normalizedSearchAddress s = [] \<longrightarrow> searchPanel rows s = Inr NoQuery)
   \<and> (normalizedSearchAddress s \<noteq> [] \<and> \<not> addressPattern (normalizedSearchAddress s) \<longrightarrow>
        searchPanel rows s = Inr InvalidFormat)
   \<and> (normalizedSearchAddress s \<noteq> [] \<and> addressPattern (normalizedSearchAddress s)
        \<and> (\<forall>row \<in> set (takeWhile
               (\<lambda>row. getProp row ''address'' \<noteq> Inr (JStr (normalizedSearchAddress s))) rows).
             \<not> nullish row) \<longrightarrow>
        searchPanel rows s =
          Inr (case List.find
                      (\<lambda>row. getProp row ''address'' = Inr (JStr (normalizedSearchAddress s))) rows
               of Some row \<Rightarrow> Found row | None \<Rightarrow> NotFound))
   \<and> (searchPanel rows s = Inr NotFound \<longrightarrow>
        normalizedSearchAddress s \<noteq> [] \<and> addressPattern (normalizedSearchAddress s))
   \<and> searchPanel rows s \<noteq> Inr Blank"
proof -
  let ?a = "normalizedSearchAddress s"
  have empty: "searchPanel rows s = Inr NoQuery" if "?a = []"
    using that by (simp add: searchPanel_def hasSearchValue_def)
  have invalid: "searchPanel rows s = Inr InvalidFormat" if "?a \<noteq> []" "\<not> addressPattern ?a"
    using that by (simp add: searchPanel_def hasSearchValue_def isSearchAddressValid_def)
  have valid:
    "searchPanel rows s =
       Inr (case List.find (\<lambda>row. getProp row ''address'' = Inr (JStr ?a)) rows
            of Some row \<Rightarrow> Found row | None \<Rightarrow> NotFound)"
    if "?a \<noteq> []" "addressPattern ?a"
      "\<forall>row \<in> set (takeWhile (\<lambda>row. getProp row ''address'' \<noteq> Inr (JStr ?a)) rows).
         \<not> nullish row"
  proof -
    have has: "hasSearchValue s" and ok: "isSearchAddressValid s"
      using that by (simp_all add: hasSearchValue_def isSearchAddressValid_def)
    have "truthy row"
      if "List.find (\<lambda>row. getProp row ''address'' = Inr (JStr ?a)) rows = Some row" for row
      using that getProp_string_is_object by (auto simp add: find_Some_iff)
    then show ?thesis
      using has ok
      by (auto simp add: searchPanel_def showSearchNotFound_def
          foundIdentity_rows [OF has ok that(3)] split: option.splits)
  qed
  have notfound: "?a \<noteq> [] \<and> addressPattern ?a" if "searchPanel rows s = Inr NotFound"
    using that
    by (auto simp add: searchPanel_def hasSearchValue_def isSearchAddressValid_def
        split: if_splits)
  have blank: "searchPanel rows s \<noteq> Inr Blank"
    by (auto simp add: searchPanel_def showSearchNotFound_def then_js_def
        split: if_splits sum.splits)
  show ?thesis
    using empty invalid valid notfound blank by blast
qed

theorem search_states_witness:
  "searchPanel
     [JObj [(''rank'', JNum (Fin 1)),
            (''address'', JStr ''0xabcdef0123456789abcdef0123456789abcdef01'')],
      JNull]
     ''   '' = Inr NoQuery
   \<and> searchPanel
     [JObj [(''rank'', JNum (Fin 1)),
            (''address'', JStr ''0xabcdef0123456789abcdef0123456789abcdef01'')],
      JNull]
     ''0x123'' = Inr InvalidFormat
   \<and> searchPanel
     [JObj [(''rank'', JNum (Fin 1)),
            (''address'', JStr ''0xabcdef0123456789abcdef0123456789abcdef01'')],
      JNull]
     '' 0xABCDEF0123456789abcdef0123456789abcdef01 ''
     = Inr (Found (JObj [(''rank'', JNum (Fin 1)),
                         (''address'', JStr ''0xabcdef0123456789abcdef0123456789abcdef01'')]))
   \<and> searchPanel
     [JObj [(''rank'', JNum (Fin 1)),
            (''address'', JStr ''0xabcdef0123456789abcdef0123456789abcdef01'')]]
     ''0x0000000000000000000000000000000000000000'' = Inr NotFound"
proof -
  define row where "row =
    JObj [(''rank'', JNum (Fin 1)),
          (''address'', JStr ''0xabcdef0123456789abcdef0123456789abcdef01'')]"
  have blank: "normalizedSearchAddress ''   '' = []"
    by code_simp
  have short: "normalizedSearchAddress ''0x123'' = ''0x123''"
    by code_simp
  have short_bad: "\<not> addressPattern ''0x123''"
    by code_simp
  have mixed: "normalizedSearchAddress '' 0xABCDEF0123456789abcdef0123456789abcdef01 ''
                 = ''0xabcdef0123456789abcdef0123456789abcdef01''"
    by code_simp
  have mixed_ok: "addressPattern ''0xabcdef0123456789abcdef0123456789abcdef01''"
    by code_simp
  have zeros: "normalizedSearchAddress ''0x0000000000000000000000000000000000000000''
                 = ''0x0000000000000000000000000000000000000000''"
    by code_simp
  have zeros_ok: "addressPattern ''0x0000000000000000000000000000000000000000''"
    by code_simp
  show ?thesis
    unfolding row_def [symmetric]
    using search_states [of "''   ''" "[row, JNull]"] search_states [of "''0x123''" "[row, JNull]"]
      search_states [of "'' 0xABCDEF0123456789abcdef0123456789abcdef01 ''" "[row, JNull]"]
      search_states [of "''0x0000000000000000000000000000000000000000''" "[row]"]
    unfolding blank short mixed zeros
    using short_bad mixed_ok zeros_ok
    by (simp add: row_def nullish_def)
qed

text \<open>
  The claim as it is written fails: with \<^verbatim>\<open>null\<close> before the matching row, a well-formed
  address shows no state, since reading \<^verbatim>\<open>row.address\<close> throws.
\<close>

theorem search_states_counterexample:
  "searchPanel
     [JNull,
      JObj [(''rank'', JNum (Fin 1)),
            (''address'', JStr ''0xabcdef0123456789abcdef0123456789abcdef01'')]]
     ''0xabcdef0123456789abcdef0123456789abcdef01'' = Inl TypeError"
proof -
  have same: "normalizedSearchAddress ''0xabcdef0123456789abcdef0123456789abcdef01''
                = ''0xabcdef0123456789abcdef0123456789abcdef01''"
    by code_simp
  have ok: "addressPattern ''0xabcdef0123456789abcdef0123456789abcdef01''"
    by code_simp
  show ?thesis
    by (simp add: searchPanel_def foundIdentity_def hasSearchValue_def isSearchAddressValid_def
        same ok)
qed


subsection \<open>The countdown label\<close>

text \<open>On whole seconds the arithmetic of \<^verbatim>\<open>formatDuration\<close> is division with remainder.\<close>

lemma floor_div_nat:
  "0 < b \<Longrightarrow> Math_floor (js_div (Fin (real a)) (Fin (real b))) = Fin (real (a div b))"
  by (simp add: floor_divide_of_nat_eq)

lemma mod_nat:
  assumes "0 < b"
  shows "js_mod (Fin (real a)) (Fin (real b)) = Fin (real (a mod b))"
proof -
  have "\<lfloor>real a / real b\<rfloor> = int (a div b)"
    by (simp add: floor_divide_of_nat_eq)
  moreover have "real a - real b * real (a div b) = real (a mod b)"
    by (metis add_diff_cancel_left' mult_div_mod_eq of_nat_add of_nat_mult)
  ultimately show ?thesis
    using assms by simp
qed

lemma Number_toString_nat:
  "n < 2 ^ 53 \<Longrightarrow> Number_toString h (Fin (real n)) = decimal n"
proof -
  assume "n < 2 ^ 53"
  then have "real n < 2 ^ 53"
    by (metis of_nat_less_iff of_nat_numeral of_nat_power)
  then show ?thesis
    by (simp add: Number_toString_def)
qed

lemma padStart_two_digits:
  assumes "n < 100"
  shows "padStart 2 (CHR ''0'') (decimal n) = two_digits n"
proof (cases "n < 10")
  case True
  then show ?thesis
    by (simp add: padStart_def two_digits_def decimal.simps [of n] digit_char_def)
next
  case False
  then have "n div 10 < 10" using assms by simp
  then show ?thesis
    using False
    by (simp add: padStart_def two_digits_def decimal.simps [of n] decimal.simps [of "n div 10"])
qed

lemma formatDuration_nat:
  "formatDuration h (Fin (real k)) =
     Number_toString h (Fin (real (k div 86400))) @ ''d ''
     @ two_digits (k mod 86400 div 3600) @ ''h ''
     @ two_digits (k mod 3600 div 60) @ ''m ''
     @ two_digits (k mod 60) @ ''s''"
proof -
  have safe: "Math_max [Fin 0, Math_floor (Fin (real k))] = Fin (real k)"
    by (simp add: Math_max_def js_max_def)
  have d: "Math_floor (js_div (Fin (real k)) (Fin 86400)) = Fin (real (k div 86400))"
    using floor_div_nat [of 86400 k] by simp
  have h: "Math_floor (js_div (js_mod (Fin (real k)) (Fin 86400)) (Fin 3600))
             = Fin (real (k mod 86400 div 3600))"
    using mod_nat [of 86400 k] floor_div_nat [of 3600 "k mod 86400"] by simp
  have m: "Math_floor (js_div (js_mod (Fin (real k)) (Fin 3600)) (Fin 60))
             = Fin (real (k mod 3600 div 60))"
    using mod_nat [of 3600 k] floor_div_nat [of 60 "k mod 3600"] by simp
  have s: "js_mod (Fin (real k)) (Fin 60) = Fin (real (k mod 60))"
    using mod_nat [of 60 k] by simp
  have hh: "k mod 86400 div 3600 < 100"
    by (simp add: less_mult_imp_div_less)
  have mm: "k mod 3600 div 60 < 100"
    by (simp add: less_mult_imp_div_less)
  have ss: "k mod 60 < 100"
    by (rule less_trans [OF mod_less_divisor]) simp_all
  have small: "n < 100 \<Longrightarrow> padStart 2 (CHR ''0'') (Number_toString h (Fin (real n))) = two_digits n" for n
    by (simp add: Number_toString_nat padStart_two_digits)
  show ?thesis
    unfolding formatDuration_def Let_def safe d h m s
    by (simp only: small [OF hh] small [OF mm] small [OF ss])
qed

lemma nextSessionTime_total: "\<exists>instant. nextSessionTime r = Inr instant"
  by (simp add: nextSessionTime_def payload_eq)

lemma secondsUntilNextSession_finite:
  assumes "nextSessionTime r = Inr (Some instant)" and "instant \<noteq> []" and "Date_parse h instant = Fin ms"
  shows "secondsUntilNextSession h nowMs r = Inr (Some (Fin (of_int \<lfloor>(ms - nowMs) / 1000\<rfloor>)))"
  using assms by (simp add: secondsUntilNextSession_def)

lemma js_le_of_int: "js_le (Fin (of_int z)) (Fin 0) \<longleftrightarrow> z \<le> 0"
  by (auto simp add: js_le_def)

lemma js_le_real: "js_le (Fin (real k)) (Fin 0) \<longleftrightarrow> k = 0"
  by (auto simp add: js_le_def)

lemma Number_toString_0: "Number_toString h (Fin 0) = ''0''"
  by (simp add: Number_toString_def decimal.simps [of 0] digit_char_def)

lemma label_unavailable:
  assumes "nextSessionTime r = Inr None \<or> nextSessionTime r = Inr (Some [])
           \<or> (\<exists>instant. nextSessionTime r = Inr (Some instant) \<and> \<not> isFinite (Date_parse h instant))"
  shows "nextSessionCountdownLabel h nowMs r = Inr ''Unavailable''"
  using assms
  by (auto simp add: nextSessionCountdownLabel_def secondsUntilNextSession_def Let_def)

lemma label_started:
  assumes "nextSessionTime r = Inr (Some instant)" and "instant \<noteq> []" and "Date_parse h instant = Fin ms"
    and "\<lfloor>(ms - nowMs) / 1000\<rfloor> \<le> 0"
  shows "nextSessionCountdownLabel h nowMs r = Inr ''Session started''"
proof -
  have "js_le (Fin (of_int \<lfloor>(ms - nowMs) / 1000\<rfloor>)) (Fin 0)"
    using assms(4) by (simp only: js_le_of_int)
  then show ?thesis
    by (simp add: nextSessionCountdownLabel_def secondsUntilNextSession_finite [OF assms(1-3)])
qed

lemma label_duration:
  assumes "nextSessionTime r = Inr (Some instant)" and "instant \<noteq> []" and "Date_parse h instant = Fin ms"
    and "0 < \<lfloor>(ms - nowMs) / 1000\<rfloor>" and "k = nat \<lfloor>(ms - nowMs) / 1000\<rfloor>"
  shows "nextSessionCountdownLabel h nowMs r = Inr (formatDuration h (Fin (real k)))"
proof -
  have eq: "(of_int \<lfloor>(ms - nowMs) / 1000\<rfloor> :: real) = real k"
    using assms(4,5) by simp
  have "0 < k"
    using assms(4,5) by simp
  then have "\<not> js_le (Fin (real k)) (Fin 0)"
    by (simp add: js_le_real)
  then show ?thesis
    by (simp add: nextSessionCountdownLabel_def secondsUntilNextSession_finite [OF assms(1-3)] eq)
qed

lemma formatDuration_last: "last (formatDuration h n) = CHR ''s''"
  by (simp add: formatDuration_def Let_def)

lemma formatDuration_distinct:
  "formatDuration h n \<noteq> ''Unavailable'' \<and> formatDuration h n \<noteq> ''Session started''"
  using formatDuration_last [of h n] by auto

lemma formatDuration_90: "formatDuration h (Fin (real 90)) = ''0d 00h 01m 30s''"
  unfolding formatDuration_nat
  by (simp add: Number_toString_0 two_digits_def digit_char_def)

text \<open>
  Claim C9. Reading the target instant never throws. The label is \<^verbatim>\<open>Unavailable\<close> when
  the instant is missing, empty or does not parse; \<^verbatim>\<open>Session started\<close> when the
  remaining whole seconds \<open>\<lfloor>(ms - nowMs) / 1000\<rfloor>\<close> are at most 0; and otherwise the
  remaining whole seconds as days, printed as a Number is (its decimal numeral below
  \<open>2\<^sup>5\<^sup>3\<close>), then hours, minutes and seconds in two digits each. Ninety seconds
  ahead the label is \<^verbatim>\<open>0d 00h 01m 30s\<close>, and no duration is printed as one of the
  other two labels.
\<close>

theorem countdown_label:
  "(\<exists>instant. nextSessionTime r = Inr instant)
   \<and> (nextSessionTime r = Inr None \<or> nextSessionTime r = Inr (Some []) \<longrightarrow>
        nextSessionCountdownLabel h nowMs r = Inr ''Unavailable'')
   \<and> (\<forall>instant. nextSessionTime r = Inr (Some instant) \<and> \<not> isFinite (Date_parse h instant) \<longrightarrow>
        nextSessionCountdownLabel h nowMs r = Inr ''Unavailable'')
   \<and> (\<forall>instant ms. nextSessionTime r = Inr (Some instant) \<and> instant \<noteq> [] \<and> Date_parse h instant = Fin ms
          \<and> \<lfloor>(ms - nowMs) / 1000\<rfloor> \<le> 0 \<longrightarrow>
        nextSessionCountdownLabel h nowMs r = Inr ''Session started'')
   \<and> (\<forall>instant ms k. nextSessionTime r = Inr (Some instant) \<and> instant \<noteq> [] \<and> Date_parse h instant = Fin ms
          \<and> 0 < \<lfloor>(ms - nowMs) / 1000\<rfloor> \<and> k = nat \<lfloor>(ms - nowMs) / 1000\<rfloor> \<longrightarrow>
        nextSessionCountdownLabel h nowMs r =
          Inr (Number_toString h (Fin (real (k div 86400))) @ ''d ''
               @ two_digits (k mod 86400 div 3600) @ ''h ''
               @ two_digits (k mod 3600 div 60) @ ''m ''
               @ two_digits (k mod 60) @ ''s'')
        \<and> (k div 86400 < 2 ^ 53 \<longrightarrow>
             Number_toString h (Fin (real (k div 86400))) = decimal (k div 86400)))
   \<and> (\<forall>instant ms. nextSessionTime r = Inr (Some instant) \<and> instant \<noteq> [] \<and> Date_parse h instant = Fin ms
          \<and> ms - nowMs = 90000 \<longrightarrow>
        nextSessionCountdownLabel h nowMs r = Inr ''0d 00h 01m 30s'')
   \<and> (\<forall>n. formatDuration h n \<noteq> ''Unavailable'' \<and> formatDuration h n \<noteq> ''Session started'')"
proof -
  have ninety: "nextSessionCountdownLabel h nowMs r = Inr ''0d 00h 01m 30s''"
    if "nextSessionTime r = Inr (Some instant)" "instant \<noteq> []" "Date_parse h instant = Fin ms"
      "ms - nowMs = 90000" for instant ms
    using label_duration [OF that(1-3), of nowMs 90] that(4) formatDuration_90 [of h] by simp
  have duration:
    "nextSessionCountdownLabel h nowMs r =
       Inr (Number_toString h (Fin (real (k div 86400))) @ ''d ''
            @ two_digits (k mod 86400 div 3600) @ ''h ''
            @ two_digits (k mod 3600 div 60) @ ''m ''
            @ two_digits (k mod 60) @ ''s'')"
    if "nextSessionTime r = Inr (Some instant)" "instant \<noteq> []" "Date_parse h instant = Fin ms"
      "0 < \<lfloor>(ms - nowMs) / 1000\<rfloor>" "k = nat \<lfloor>(ms - nowMs) / 1000\<rfloor>" for instant ms k
    using label_duration [OF that] by (simp only: formatDuration_nat)
  show ?thesis
    using nextSessionTime_total [of r] label_unavailable [of r h nowMs]
      label_started [of r _ h _ nowMs] duration ninety Number_toString_nat [of _ h]
      formatDuration_distinct [of h]
    by blast
qed

theorem countdown_label_witness:
  "nextSessionCountdownLabel example_host 0
     (scan_success (JObj [(''session'', JObj [(''nextValidationTime'', JStr ''1970-01-01T00:01:30Z'')])]))
     = Inr ''0d 00h 01m 30s''
   \<and> nextSessionCountdownLabel example_host 90000
     (scan_success (JObj [(''session'', JObj [(''nextValidationTime'', JStr ''1970-01-01T00:01:30Z'')])]))
     = Inr ''Session started''
   \<and> nextSessionCountdownLabel example_host 0
     (scan_success (JObj [(''session'', JObj [(''nextValidationTime'', JStr ''soon'')])]))
     = Inr ''Unavailable''
   \<and> nextSessionCountdownLabel example_host 0 (scan_success (JObj []))
     = Inr ''Unavailable''"
proof -
  have t1: "nextSessionTime (scan_success (JObj [(''session'',
              JObj [(''nextValidationTime'', JStr ''1970-01-01T00:01:30Z'')])]))
            = Inr (Some ''1970-01-01T00:01:30Z'')"
    by (simp add: nextSessionTime_def eval_simps)
  have t2: "nextSessionTime (scan_success (JObj [(''session'',
              JObj [(''nextValidationTime'', JStr ''soon'')])])) = Inr (Some ''soon'')"
    by (simp add: nextSessionTime_def eval_simps)
  have t3: "nextSessionTime (scan_success (JObj [])) = Inr None"
    by (simp add: nextSessionTime_def eval_simps)
  show ?thesis
    using
      countdown_label [of "scan_success (JObj [(''session'',
              JObj [(''nextValidationTime'', JStr ''1970-01-01T00:01:30Z'')])])" example_host 0]
      countdown_label [of "scan_success (JObj [(''session'',
              JObj [(''nextValidationTime'', JStr ''1970-01-01T00:01:30Z'')])])" example_host 90000]
      countdown_label [of "scan_success (JObj [(''session'',
              JObj [(''nextValidationTime'', JStr ''soon'')])])" example_host 0]
      countdown_label [of "scan_success (JObj [])" example_host 0]
    unfolding t1 t2 t3
    by (simp add: example_parse_90 example_parse_soon Number_toString_0 two_digits_def
        digit_char_def)
qed

subsection \<open>The commands of a line path\<close>

lemma decimal_small: "n < 10 \<Longrightarrow> decimal n = [digit_char n]"
  by (simp add: decimal.simps [of n])

lemma decimal_big: "10 \<le> n \<Longrightarrow> decimal n = decimal (n div 10) @ [digit_char (n mod 10)]"
  by (simp add: decimal.simps [of n])

lemmas decimal_eval = decimal_small decimal_big digit_char_def

lemma digit_char_digit: "d < 10 \<Longrightarrow> digit_char d \<in> set ''0123456789''"
  unfolding digit_char_def by (rule nth_mem) simp

lemma decimal_digits: "set (decimal n) \<subseteq> set ''0123456789''"
proof (induction n rule: decimal.induct)
  case (1 n)
  show ?case
  proof (cases "n < 10")
    case True
    then show ?thesis
      using digit_char_digit [of n] by (simp add: decimal.simps [of n])
  next
    case False
    have "digit_char (n mod 10) \<in> set ''0123456789''"
      by (rule digit_char_digit) simp
    then show ?thesis
      using False 1 by (simp add: decimal.simps [of n])
  qed
qed

lemma plain_decimal: "plain (decimal n)"
  using decimal_digits [of n] by (auto simp add: plain_def)

lemma plain_append [simp]: "plain (a @ b) \<longleftrightarrow> plain a \<and> plain b"
  by (auto simp add: plain_def)

lemma plain_Number_toString: "numeric_text h \<Longrightarrow> plain (Number_toString h n)"
proof -
  assume "numeric_text h"
  then have "plain (NumberToStringOther h x)" for x
    by (auto simp add: numeric_text_def plain_def)
  then show ?thesis
    using plain_decimal
    by (cases n) (auto simp add: Number_toString_def plain_def)
qed

lemma plain_toFixed2: "numeric_text h \<Longrightarrow> plain (toFixed2 h n)"
proof -
  assume nt: "numeric_text h"
  have sub: "plain (take k s)" "plain (drop k s)" if "plain s" for k s
    using that by (auto simp add: plain_def dest: in_set_takeD in_set_dropD)
  have pad: "plain (replicate k (CHR ''0'') @ decimal m)" for k m
    using plain_decimal by (auto simp add: plain_def)
  show ?thesis
  proof (cases n)
    case (Fin x)
    then show ?thesis
      using plain_Number_toString [OF nt] sub [OF pad]
      by (auto simp add: toFixed2_def Let_def) (simp_all add: plain_def)
  qed (use plain_Number_toString [OF nt] in \<open>simp_all add: toFixed2_def\<close>)
qed

lemma commands_plain: "plain s \<Longrightarrow> commands s = []"
  by (auto simp add: plain_def commands_def filter_empty_conv)

lemma commands_append: "commands (a @ b) = commands a @ commands b"
  by (simp add: commands_def)

lemma commands_js_join: "commands (js_join '' '' xs) = concat (map commands xs)"
proof (induction "'' ''" xs rule: js_join.induct)
  case (3 x y ys)
  then show ?case
    by (simp add: commands_append) (simp add: commands_def)
qed (simp_all add: commands_def)

lemma commands_segment:
  assumes "numeric_text h"
  shows "commands ((if i = (0 :: nat) then ''M'' else ''L'') @ toFixed2 h x @ '' '' @ toFixed2 h y)
           = [if i = 0 then CHR ''M'' else CHR ''L'']"
  using commands_plain [OF plain_toFixed2 [OF assms]]
  by (simp add: commands_append) (simp add: commands_def)

lemma letters_enumerate:
  "map (\<lambda>(i, p). if i = (0 :: nat) then a else b) (enumerate (Suc k) xs) = replicate (length xs) b"
  by (induction xs arbitrary: k) simp_all

lemma Number_toString_width: "Number_toString h CHART_WIDTH = ''720''"
  by (simp add: CHART_WIDTH_def Number_toString_def decimal_eval)

lemma buildLinePath_empty: "buildLinePath h [] e v = []"
  by (simp add: buildLinePath_def)

lemma buildLinePath_single:
  "buildLinePath h [p] e v =
     ''M0 '' @ toFixed2 h (js_sub CHART_HEIGHT (js_mul (js_div (cvalue p)
                 (if js_less (Fin 0) v then v else Fin 1)) CHART_HEIGHT))
     @ '' L720 '' @ toFixed2 h (js_sub CHART_HEIGHT (js_mul (js_div (cvalue p)
                 (if js_less (Fin 0) v then v else Fin 1)) CHART_HEIGHT))"
  by (simp add: buildLinePath_def Let_def Number_toString_width)

lemma buildLinePath_many:
  assumes "2 \<le> length pts"
  shows "buildLinePath h pts e v =
     js_join '' ''
       (map (\<lambda>(i, p).
               (if i = 0 then ''M'' else ''L'')
               @ toFixed2 h (js_mul (js_div (elapsedSeconds p)
                   (if js_less (Fin 0) e then e else Fin 1)) CHART_WIDTH)
               @ '' ''
               @ toFixed2 h (js_sub CHART_HEIGHT (js_mul (js_div (cvalue p)
                   (if js_less (Fin 0) v then v else Fin 1)) CHART_HEIGHT)))
          (enumerate 0 pts))"
  using assms by (simp add: buildLinePath_def Let_def)

lemma commands_many:
  assumes "numeric_text h" and "2 \<le> length pts"
  shows "commands (buildLinePath h pts e v) = CHR ''M'' # replicate (length pts - 1) (CHR ''L'')"
proof -
  obtain p rest where pts: "pts = p # rest"
    using assms(2) by (cases pts) auto
  have "commands (buildLinePath h pts e v)
          = map (\<lambda>(i, p). if i = 0 then CHR ''M'' else CHR ''L'') (enumerate 0 pts)"
    unfolding buildLinePath_many [OF assms(2)] commands_js_join
    by (simp add: commands_segment [OF assms(1)] case_prod_beta comp_def del: append.simps)
  also have "\<dots> = CHR ''M'' # replicate (length pts - 1) (CHR ''L'')"
    by (simp add: pts letters_enumerate)
  finally show ?thesis .
qed

lemma commands_single:
  assumes "numeric_text h"
  shows "commands (buildLinePath h [p] e v) = ''ML''"
  unfolding buildLinePath_single
  using commands_plain [OF plain_toFixed2 [OF assms]]
  by (simp add: commands_append) (simp add: commands_def)

text \<open>
  Claim C4. No point gives the empty path. One point gives a move to the left edge and
  a line to the right edge, \<^verbatim>\<open>L720\<close>, both at the scaled height of the point. Two or
  more points give one segment per point, in the order of the points, the first a move
  and the others lines, each to the scaled coordinates of its own point; so the path
  has one \<^verbatim>\<open>M\<close> followed by \<open>N - 1\<close> \<^verbatim>\<open>L\<close>, the text of a Number holding neither letter.
\<close>

theorem buildLinePath_commands:
  "buildLinePath h [] e v = []
   \<and> buildLinePath h [p] e v =
       ''M0 '' @ toFixed2 h (js_sub CHART_HEIGHT (js_mul (js_div (cvalue p)
                   (if js_less (Fin 0) v then v else Fin 1)) CHART_HEIGHT))
       @ '' L720 '' @ toFixed2 h (js_sub CHART_HEIGHT (js_mul (js_div (cvalue p)
                   (if js_less (Fin 0) v then v else Fin 1)) CHART_HEIGHT))
   \<and> (2 \<le> length pts \<longrightarrow>
        buildLinePath h pts e v =
          js_join '' ''
            (map (\<lambda>(i, p).
                    (if i = 0 then ''M'' else ''L'')
                    @ toFixed2 h (js_mul (js_div (elapsedSeconds p)
                        (if js_less (Fin 0) e then e else Fin 1)) CHART_WIDTH)
                    @ '' ''
                    @ toFixed2 h (js_sub CHART_HEIGHT (js_mul (js_div (cvalue p)
                        (if js_less (Fin 0) v then v else Fin 1)) CHART_HEIGHT)))
               (enumerate 0 pts)))
   \<and> (numeric_text h \<longrightarrow> commands (buildLinePath h [p] e v) = ''ML'')
   \<and> (numeric_text h \<and> 2 \<le> length pts \<longrightarrow>
        commands (buildLinePath h pts e v) = CHR ''M'' # replicate (length pts - 1) (CHR ''L''))"
  using buildLinePath_empty [of h e v] buildLinePath_single [of h p e v]
    buildLinePath_many [of pts h e v] commands_single [of h p e v] commands_many [of h pts e v]
  by blast

lemma numeric_text_example: "numeric_text example_host"
  by (simp add: numeric_text_def example_host_def)

lemma toFixed2_examples:
  "toFixed2 h (Fin 0) = ''0.00''"
  "toFixed2 h (Fin 55) = ''55.00''"
  "toFixed2 h (Fin 165) = ''165.00''"
  "toFixed2 h (Fin 360) = ''360.00''"
  "toFixed2 h (Fin 720) = ''720.00''"
  by (simp_all add: toFixed2_def decimal_eval)

theorem buildLinePath_commands_witness:
  "numeric_text example_host
   \<and> buildLinePath example_host
       [\<lparr>elapsedSeconds = Fin 0, cvalue = Fin 1\<rparr>, \<lparr>elapsedSeconds = Fin 5, cvalue = Fin 3\<rparr>,
        \<lparr>elapsedSeconds = Fin 10, cvalue = Fin 4\<rparr>] (Fin 10) (Fin 4)
       = ''M0.00 165.00 L360.00 55.00 L720.00 0.00''
   \<and> commands (buildLinePath example_host
       [\<lparr>elapsedSeconds = Fin 0, cvalue = Fin 1\<rparr>, \<lparr>elapsedSeconds = Fin 5, cvalue = Fin 3\<rparr>,
        \<lparr>elapsedSeconds = Fin 10, cvalue = Fin 4\<rparr>] (Fin 10) (Fin 4)) = ''MLL''
   \<and> buildLinePath example_host [\<lparr>elapsedSeconds = Fin 5, cvalue = Fin 3\<rparr>] (Fin 10) (Fin 4)
       = ''M0 55.00 L720 55.00''
   \<and> commands (buildLinePath example_host [\<lparr>elapsedSeconds = Fin 5, cvalue = Fin 3\<rparr>]
        (Fin 10) (Fin 4)) = ''ML''"
proof -
  have three: "length [\<lparr>elapsedSeconds = Fin 0, cvalue = Fin 1\<rparr>,
                 \<lparr>elapsedSeconds = Fin 5, cvalue = Fin 3\<rparr>,
                 \<lparr>elapsedSeconds = Fin 10, cvalue = Fin 4\<rparr>] - 1 = Suc (Suc 0)"
    by simp
  show ?thesis
    using numeric_text_example
      buildLinePath_commands [of example_host "Fin 10" "Fin 4"
        "\<lparr>elapsedSeconds = Fin 5, cvalue = Fin 3\<rparr>"
        "[\<lparr>elapsedSeconds = Fin 0, cvalue = Fin 1\<rparr>, \<lparr>elapsedSeconds = Fin 5, cvalue = Fin 3\<rparr>,
          \<lparr>elapsedSeconds = Fin 10, cvalue = Fin 4\<rparr>]"]
    unfolding three
    by (simp add: CHART_HEIGHT_def CHART_WIDTH_def toFixed2_examples commands_def)
qed


subsection \<open>The shared scale of a chart\<close>

text \<open>
  The maximum of finite Numbers above a floor is finite, at least the floor, an upper
  bound, and the floor or one of the Numbers; and what the normalizer and
  \<^verbatim>\<open>toChartPoints\<close> return is finite.
\<close>

lemma js_le_Fin [simp]: "js_le (Fin a) (Fin b) \<longleftrightarrow> a \<le> b"
  by (auto simp add: js_le_def)

lemma js_max_Fin [simp]: "js_max (Fin a) (Fin b) = Fin (max a b)"
  by (auto simp add: js_max_def max_def)

lemma foldl_js_max_finite:
  "list_all isFinite xs \<Longrightarrow>
     \<exists>m. foldl js_max (Fin a) xs = Fin m \<and> a \<le> m
         \<and> (\<forall>x \<in> set xs. js_le x (Fin m)) \<and> (m = a \<or> Fin m \<in> set xs)"
proof (induction xs arbitrary: a)
  case Nil
  then show ?case by simp
next
  case (Cons x xs)
  then obtain b where x: "x = Fin b"
    by (cases x) simp_all
  have "list_all isFinite xs"
    using Cons.prems by simp
  from Cons.IH [OF this, of "max a b"]
  obtain m where m: "foldl js_max (Fin (max a b)) xs = Fin m" "max a b \<le> m"
    "\<forall>y \<in> set xs. js_le y (Fin m)" "m = max a b \<or> Fin m \<in> set xs"
    by blast
  show ?case
    using m x by (auto simp add: max_def split: if_splits)
qed

lemma Math_max_floor_one:
  assumes "list_all isFinite xs"
  shows "\<exists>m. Math_max (Fin 1 # xs) = Fin m \<and> 1 \<le> m
             \<and> (\<forall>x \<in> set xs. js_le x (Fin m)) \<and> (m = 1 \<or> Fin m \<in> set xs)"
  using foldl_js_max_finite [OF assms, of 1]
  by (simp add: Math_max_def js_max_def)

lemma toChartPoints_finite:
  assumes "list_all (\<lambda>p. isFinite (sel p)) pts"
  shows "list_all (\<lambda>c. isFinite (elapsedSeconds c) \<and> isFinite (cvalue c)) (toChartPoints h pts sel)"
proof (cases pts)
  case Nil
  then show ?thesis by (simp add: toChartPoints_def)
next
  case (Cons p0 rest)
  have el: "isFinite (Math_max [Fin 0, js_div (js_sub a b) (Fin 1000)])"
    if "isFinite a" "isFinite b" for a b
    using that by (cases a; cases b) (simp_all add: Math_max_def js_max_def)
  show ?thesis
    using assms unfolding Cons toChartPoints_Cons
    by (auto simp add: list_all_iff el)
qed

lemma normalizePoint_finite:
  assumes "normalizePoint h x = Inr (Some p)"
  shows "isFinite (flipsSeen p) \<and> isFinite (uniqueAuthors p)"
  using assms
  by (auto simp add: normalizePoint_def then_js_def split: if_splits sum.splits jsval.splits)

lemma normalizePoints_finite:
  assumes "normalizePoints h v = Inr ps"
  shows "list_all (\<lambda>p. isFinite (flipsSeen p) \<and> isFinite (uniqueAuthors p)) ps"
proof (cases "isArray v")
  case False
  then show ?thesis using assms by (simp add: normalizePoints_def)
next
  case True
  then obtain rs where rs: "map_js (normalizePoint h) (elements v) = Inr rs"
    and ps: "ps = List.map_filter id rs"
    using assms by (auto simp add: normalizePoints_def then_js_def split: sum.splits)
  have "isFinite (flipsSeen p) \<and> isFinite (uniqueAuthors p)" if "p \<in> set ps" for p
  proof -
    have "Some p \<in> set rs"
      using that ps by (simp add: set_map_filter_id)
    then obtain x where "normalizePoint h x = Inr (Some p)"
      using map_js_Inr [OF rs] by (auto simp add: list_all2_conv_all_nth in_set_conv_nth)
    then show ?thesis by (rule normalizePoint_finite)
  qed
  then show ?thesis by (simp add: list_all_iff)
qed

lemma progressCurrentSeries_finite:
  assumes "progressCurrentSeries h r = Inr (Some s)"
  shows "list_all (\<lambda>p. isFinite (flipsSeen p) \<and> isFinite (uniqueAuthors p)) (points s)"
proof -
  obtain v where "normalizePoints h v = Inr (points s)"
    using assms
    by (auto simp add: progressCurrentSeries_def then_js_def split: if_splits sum.splits)
  then show ?thesis by (rule normalizePoints_finite)
qed

lemma normalizeSeries_finite:
  assumes "normalizeSeries h x = Inr (Some s)"
  shows "list_all (\<lambda>p. isFinite (flipsSeen p) \<and> isFinite (uniqueAuthors p)) (points s)"
proof -
  obtain v where "normalizePoints h v = Inr (points s)"
    using assms
    by (auto simp add: normalizeSeries_def then_js_def split: if_splits sum.splits)
  then show ?thesis by (rule normalizePoints_finite)
qed

lemma progressPreviousSeries_finite:
  assumes "progressPreviousSeries h r = Inr out" and "s \<in> set out"
  shows "list_all (\<lambda>p. isFinite (flipsSeen p) \<and> isFinite (uniqueAuthors p)) (points s)"
proof -
  obtain pp where pp: "progressPayload r = Inr pp"
    by (simp add: progressPayload_eq)
  define rows where "rows = field (field pp ''series'') ''previousEpochs''"
  show ?thesis
  proof (cases "isArray rows")
    case False
    then have "out = []"
      using assms(1) by (simp add: progressPreviousSeries_def pp rows_def [symmetric])
    then show ?thesis using assms(2) by simp
  next
    case True
    then obtain rs where rs: "map_js (normalizeSeries h) (elements rows) = Inr rs"
      and out: "out = take 2 (List.map_filter id rs)"
      using assms(1)
      by (auto simp add: progressPreviousSeries_def pp rows_def [symmetric] then_js_def
          split: sum.splits)
    have "s \<in> set (List.map_filter id rs)"
      using assms(2) out by (auto dest: in_set_takeD)
    then have "Some s \<in> set rs"
      by (simp add: set_map_filter_id)
    then obtain x where "normalizeSeries h x = Inr (Some s)"
      using map_js_Inr [OF rs] by (auto simp add: list_all2_conv_all_nth in_set_conv_nth)
    then show ?thesis by (rule normalizeSeries_finite)
  qed
qed

lemma paths_of_enumerate:
  "map path (map (\<lambda>(index, series). \<lparr>line_epoch = a series, path = b series,
                                         opacity = c index\<rparr>) (enumerate n xs)) = map b xs"
  by (induction xs arbitrary: n) simp_all

lemma length_concat_map: "length (concat (map (map f) xss)) = length (concat xss)"
  by (induction xss) simp_all

text \<open>
  With more chart points than the engine accepts arguments, the first spread call
  throws; otherwise the chart is built with the two maxima.
\<close>

lemma buildMetricChart_throws:
  assumes "max_arguments h < 1 + length (concat (allSeries h sel cur prev))"
  shows "buildMetricChart h sel cur prev = Inl RangeError"
proof -
  have "max_arguments h
          < length (Fin 1 # concat (map (map elapsedSeconds) (allSeries h sel cur prev)))"
    using assms by (simp add: length_concat_map)
  then show ?thesis
    unfolding buildMetricChart_def Let_def allSeries_def Math_max_spread_def
    by (simp add: comp_def)
qed

lemma buildMetricChart_returns:
  assumes "length (concat (allSeries h sel cur prev)) < max_arguments h"
  shows "\<exists>c. buildMetricChart h sel cur prev = Inr c
     \<and> maxElapsedSeconds c =
         Math_max (Fin 1 # concat (map (map elapsedSeconds) (allSeries h sel cur prev)))
     \<and> maxValue c = Math_max (Fin 1 # concat (map (map cvalue) (allSeries h sel cur prev)))
     \<and> currentPath c =
         buildLinePath h (hd (allSeries h sel cur prev)) (maxElapsedSeconds c) (maxValue c)
     \<and> map path (trailingPaths c) =
         map (\<lambda>pts. buildLinePath h pts (maxElapsedSeconds c) (maxValue c))
           (tl (allSeries h sel cur prev))"
proof -
  define CP where "CP = toChartPoints h (case cur of None \<Rightarrow> [] | Some s \<Rightarrow> points s) sel"
  define T where "T = map (\<lambda>series. (epoch series, toChartPoints h (points series) sel)) prev"
  define E where "E = Math_max (Fin 1 # concat (map (map elapsedSeconds) (CP # map snd T)))"
  define V where "V = Math_max (Fin 1 # concat (map (map cvalue) (CP # map snd T)))"
  define C where "C =
    \<lparr>currentPath = buildLinePath h CP E V,
     trailingPaths =
       map (\<lambda>(index, series).
              \<lparr>line_epoch = fst series,
               path = buildLinePath h (snd series) E V,
               opacity = (if index = (0 :: nat) then 45 / 100 else 24 / 100)\<rparr>)
         (enumerate 0 T),
     maxValue = V,
     maxElapsedSeconds = E,
     latestValue = (if length CP \<noteq> 0 then cvalue (last CP) else Fin 0)\<rparr>"
  have all: "allSeries h sel cur prev = CP # map snd T"
    by (simp add: allSeries_def CP_def T_def comp_def)
  have few: "length (concat (CP # map snd T)) < max_arguments h"
    using assms unfolding all .
  have e: "Math_max_spread h (Fin 1 # concat (map (map elapsedSeconds) (CP # map snd T))) = Inr E"
    using few length_concat_map [of elapsedSeconds "CP # map snd T"]
    by (simp add: Math_max_spread_def E_def)
  have v: "Math_max_spread h (Fin 1 # concat (map (map cvalue) (CP # map snd T))) = Inr V"
    using few length_concat_map [of cvalue "CP # map snd T"]
    by (simp add: Math_max_spread_def V_def)
  have built: "buildMetricChart h sel cur prev = Inr C"
    unfolding buildMetricChart_def Let_def CP_def [symmetric] T_def [symmetric] e v then_js_Inr
      C_def ..
  have tp: "map path (trailingPaths C) = map (\<lambda>series. buildLinePath h (snd series) E V) T"
    unfolding C_def MetricChart.select_convs paths_of_enumerate ..
  have tp': "map path (trailingPaths C) = map (\<lambda>pts. buildLinePath h pts E V) (map snd T)"
    unfolding tp by (simp add: comp_def)
  show ?thesis
    unfolding all
    using built tp' by (intro exI [of _ C]) (simp add: C_def E_def V_def)
qed

lemma allSeries_finite:
  assumes "progressCurrentSeries h r = Inr cur" and "progressPreviousSeries h r = Inr prev"
    and "sel = flipsSeen \<or> sel = uniqueAuthors"
    and "pts \<in> set (allSeries h sel cur prev)"
  shows "list_all (\<lambda>c. isFinite (elapsedSeconds c) \<and> isFinite (cvalue c)) pts"
proof -
  have counters: "list_all (\<lambda>p. isFinite (sel p)) ps"
    if "list_all (\<lambda>p. isFinite (flipsSeen p) \<and> isFinite (uniqueAuthors p)) ps" for ps
    using that assms(3) by (auto simp add: list_all_iff)
  have current: "list_all (\<lambda>p. isFinite (sel p)) (case cur of None \<Rightarrow> [] | Some s \<Rightarrow> points s)"
  proof (cases cur)
    case None
    then show ?thesis by simp
  next
    case (Some s)
    then show ?thesis
      using counters progressCurrentSeries_finite [of h r s] assms(1) by simp
  qed
  have previous: "list_all (\<lambda>p. isFinite (sel p)) (points s)" if "s \<in> set prev" for s
    using counters progressPreviousSeries_finite [OF assms(2) that] by simp
  show ?thesis
    using assms(4) current previous toChartPoints_finite [of sel _ h]
    by (auto simp add: allSeries_def)
qed

text \<open>
  Within the limit of the engine, and for the series the normalizer returned and either
  metric, the chart has one maximum elapsed time and one maximum value, both finite and
  at least 1; each is an upper bound of every point of every series and is 1 or the
  value of one of these points, and every path is built with these same two maxima.
\<close>

lemma chart_scale_within_limit:
  assumes "progressCurrentSeries h r = Inr cur" and "progressPreviousSeries h r = Inr prev"
    and "sel = flipsSeen \<or> sel = uniqueAuthors"
    and "length (concat (allSeries h sel cur prev)) < max_arguments h"
  shows "\<exists>c e v.
     buildMetricChart h sel cur prev = Inr c
     \<and> maxElapsedSeconds c = Fin e \<and> 1 \<le> e
     \<and> maxValue c = Fin v \<and> 1 \<le> v
     \<and> (\<forall>pts \<in> set (allSeries h sel cur prev). \<forall>p \<in> set pts.
           js_le (elapsedSeconds p) (Fin e) \<and> js_le (cvalue p) (Fin v))
     \<and> (e = 1 \<or> (\<exists>pts \<in> set (allSeries h sel cur prev). \<exists>p \<in> set pts. elapsedSeconds p = Fin e))
     \<and> (v = 1 \<or> (\<exists>pts \<in> set (allSeries h sel cur prev). \<exists>p \<in> set pts. cvalue p = Fin v))
     \<and> currentPath c = buildLinePath h (hd (allSeries h sel cur prev)) (Fin e) (Fin v)
     \<and> map path (trailingPaths c) =
         map (\<lambda>pts. buildLinePath h pts (Fin e) (Fin v)) (tl (allSeries h sel cur prev))"
proof -
  let ?all = "allSeries h sel cur prev"
  have fin: "isFinite (elapsedSeconds p) \<and> isFinite (cvalue p)" if "pts \<in> set ?all" "p \<in> set pts"
    for pts p
    using allSeries_finite [OF assms(1-3) that(1)] that(2) by (simp add: list_all_iff)
  have "list_all isFinite (concat (map (map elapsedSeconds) ?all))"
    using fin by (auto simp add: list_all_iff)
  from Math_max_floor_one [OF this]
  obtain e where e: "Math_max (Fin 1 # concat (map (map elapsedSeconds) ?all)) = Fin e" "1 \<le> e"
    "\<forall>x \<in> set (concat (map (map elapsedSeconds) ?all)). js_le x (Fin e)"
    "e = 1 \<or> Fin e \<in> set (concat (map (map elapsedSeconds) ?all))"
    by blast
  have "list_all isFinite (concat (map (map cvalue) ?all))"
    using fin by (auto simp add: list_all_iff)
  from Math_max_floor_one [OF this]
  obtain v where v: "Math_max (Fin 1 # concat (map (map cvalue) ?all)) = Fin v" "1 \<le> v"
    "\<forall>x \<in> set (concat (map (map cvalue) ?all)). js_le x (Fin v)"
    "v = 1 \<or> Fin v \<in> set (concat (map (map cvalue) ?all))"
    by blast
  have bound: "\<forall>pts \<in> set ?all. \<forall>p \<in> set pts.
                 js_le (elapsedSeconds p) (Fin e) \<and> js_le (cvalue p) (Fin v)"
    using e(3) v(3) by auto
  have e_attained: "e = 1 \<or> (\<exists>pts \<in> set ?all. \<exists>p \<in> set pts. elapsedSeconds p = Fin e)"
  proof (cases "e = 1")
    case False
    then have "Fin e \<in> set (concat (map (map elapsedSeconds) ?all))"
      using e(4) by simp
    then obtain pts p where "pts \<in> set ?all" "p \<in> set pts" "elapsedSeconds p = Fin e"
      by auto
    then show ?thesis by blast
  qed simp
  have v_attained: "v = 1 \<or> (\<exists>pts \<in> set ?all. \<exists>p \<in> set pts. cvalue p = Fin v)"
  proof (cases "v = 1")
    case False
    then have "Fin v \<in> set (concat (map (map cvalue) ?all))"
      using v(4) by simp
    then obtain pts p where "pts \<in> set ?all" "p \<in> set pts" "cvalue p = Fin v"
      by auto
    then show ?thesis by blast
  qed simp
  from buildMetricChart_returns [OF assms(4)]
  obtain c where c: "buildMetricChart h sel cur prev = Inr c"
    "maxElapsedSeconds c = Fin e" "maxValue c = Fin v"
    "currentPath c = buildLinePath h (hd ?all) (maxElapsedSeconds c) (maxValue c)"
    "map path (trailingPaths c) =
       map (\<lambda>pts. buildLinePath h pts (maxElapsedSeconds c) (maxValue c)) (tl ?all)"
    unfolding e(1) v(1) by blast
  have cp: "currentPath c = buildLinePath h (hd ?all) (Fin e) (Fin v)"
    using c(4) by (simp only: c(2,3))
  have tp: "map path (trailingPaths c) = map (\<lambda>pts. buildLinePath h pts (Fin e) (Fin v)) (tl ?all)"
    using c(5) by (simp only: c(2,3))
  show ?thesis
    using c(1,2,3) e(2) v(2) bound e_attained v_attained cp tp by blast
qed




lemma map_js_replicate: "f x = Inr y \<Longrightarrow> map_js f (replicate n x) = Inr (replicate n y)"
  by (induction n) simp_all

lemma map_filter_id_replicate: "List.map_filter id (replicate n (Some p)) = replicate n p"
  by (induction n) (simp_all add: map_filter_simps)

lemma toChartPoints_replicate:
  assumes "Date_parse h (timestamp p) = Fin t"
  shows "toChartPoints h (replicate n p) sel
           = replicate n \<lparr>elapsedSeconds = Fin 0, cvalue = sel p\<rparr>"
proof (cases n)
  case 0
  then show ?thesis by (simp add: toChartPoints_def)
next
  case (Suc m)
  have "toChartPoints h (p # replicate m p) sel
          = \<lparr>elapsedSeconds = Fin 0, cvalue = sel p\<rparr>
            # replicate m \<lparr>elapsedSeconds = Fin 0, cvalue = sel p\<rparr>"
    unfolding toChartPoints_Cons by (simp add: assms Math_max_def js_max_def)
  then show ?thesis using Suc by simp
qed

lemma Math_max_replicate_one: "Math_max (Fin 1 # replicate n (Fin 1)) = Fin 1"
proof -
  have "foldl js_max (Fin 1) (replicate n (Fin 1)) = Fin 1"
    by (induction n) (simp_all add: js_max_def)
  then show ?thesis by (simp add: Math_max_def js_max_def)
qed

text \<open>
  Claim C5 at a current series of 130000 points and no trailing series. The claim gives
  the chart the shared maxima 1 and 1; the two series computeds return, and the spread
  of 130001 arguments into \<^verbatim>\<open>Math.max\<close> throws, so that no chart is built.
\<close>

theorem chart_long_series_throws:
  "progressCurrentSeries example_host (scan_success (JObj
      [(''progress'', JObj [(''series'', JObj [(''currentEpoch'', JObj
         [(''epoch'', JNum (Fin 7)),
          (''points'', JArr (replicate 130000
             (JObj [(''timestamp'', JStr ''1970-01-01T00:00:00Z''),
                    (''flipsSeen'', JNum (Fin 1)), (''uniqueAuthors'', JNum (Fin 1))])))])])])]))
     = Inr (Some \<lparr>epoch = Fin 7, points = replicate 130000
         \<lparr>timestamp = ''1970-01-01T00:00:00Z'', flipsSeen = Fin 1, uniqueAuthors = Fin 1\<rparr>\<rparr>)
   \<and> progressPreviousSeries example_host (scan_success (JObj
      [(''progress'', JObj [(''series'', JObj [(''currentEpoch'', JObj
         [(''epoch'', JNum (Fin 7)),
          (''points'', JArr (replicate 130000
             (JObj [(''timestamp'', JStr ''1970-01-01T00:00:00Z''),
                    (''flipsSeen'', JNum (Fin 1)), (''uniqueAuthors'', JNum (Fin 1))])))])])])]))
     = Inr []
   \<and> flipsChart example_host (scan_success (JObj
      [(''progress'', JObj [(''series'', JObj [(''currentEpoch'', JObj
         [(''epoch'', JNum (Fin 7)),
          (''points'', JArr (replicate 130000
             (JObj [(''timestamp'', JStr ''1970-01-01T00:00:00Z''),
                    (''flipsSeen'', JNum (Fin 1)), (''uniqueAuthors'', JNum (Fin 1))])))])])])]))
     = Inl RangeError
   \<and> Math_max (Fin 1 # concat (map (map cvalue) (allSeries example_host flipsSeen
        (Some \<lparr>epoch = Fin 7, points = replicate 130000
           \<lparr>timestamp = ''1970-01-01T00:00:00Z'', flipsSeen = Fin 1, uniqueAuthors = Fin 1\<rparr>\<rparr>)
        []))) = Fin 1
   \<and> Math_max (Fin 1 # concat (map (map elapsedSeconds) (allSeries example_host flipsSeen
        (Some \<lparr>epoch = Fin 7, points = replicate 130000
           \<lparr>timestamp = ''1970-01-01T00:00:00Z'', flipsSeen = Fin 1, uniqueAuthors = Fin 1\<rparr>\<rparr>)
        []))) = Fin 1"
proof -
  define n :: nat where "n = 130000"
  define pj where "pj = JObj [(''timestamp'', JStr ''1970-01-01T00:00:00Z''),
                    (''flipsSeen'', JNum (Fin 1)), (''uniqueAuthors'', JNum (Fin 1))]"
  define p where "p = \<lparr>timestamp = ''1970-01-01T00:00:00Z'', flipsSeen = Fin 1, uniqueAuthors = Fin 1\<rparr>"
  define r where "r = scan_success (JObj
      [(''progress'', JObj [(''series'', JObj [(''currentEpoch'', JObj
         [(''epoch'', JNum (Fin 7)), (''points'', JArr (replicate n pj))])])])])"
  define cur where "cur = Some \<lparr>epoch = Fin 7, points = replicate n p\<rparr>"
  have many: "max_arguments example_host < 1 + n"
    by (simp add: n_def example_host_def)
  have point: "normalizePoint example_host pj = Inr (Some p)"
    by (simp add: pj_def p_def normalizePoint_def field_def coalesce_def nullish_def)
  have points: "normalizePoints example_host (JArr (replicate n pj)) = Inr (replicate n p)"
    by (simp add: normalizePoints_def map_filter_id_replicate
        map_js_replicate [of "normalizePoint example_host" pj "Some p" n, OF point])
  have c: "progressCurrentSeries example_host r = Inr cur"
    by (simp add: r_def cur_def progressCurrentSeries_def progressPayload_eq scan_success_def
        field_def coalesce_def nullish_def points)
  have pr: "progressPreviousSeries example_host r = Inr []"
    by (simp add: r_def progressPreviousSeries_def progressPayload_eq scan_success_def
        field_def coalesce_def nullish_def)
  have parse: "Date_parse example_host (timestamp p) = Fin 0"
    by (simp add: p_def example_parse_0)
  have all: "allSeries example_host flipsSeen cur []
               = [replicate n \<lparr>elapsedSeconds = Fin 0, cvalue = Fin 1\<rparr>]"
    by (simp add: allSeries_def cur_def toChartPoints_replicate [OF parse]) (simp add: p_def)
  have "buildMetricChart example_host flipsSeen cur [] = Inl RangeError"
    using many by (intro buildMetricChart_throws) (simp add: all)
  then have chart: "flipsChart example_host r = Inl RangeError"
    by (simp add: flipsChart_def c pr)
  have mv: "Math_max (Fin 1 # concat (map (map cvalue) (allSeries example_host flipsSeen cur [])))
              = Fin 1"
    by (simp add: all Math_max_replicate_one)
  have me: "Math_max (Fin 1 # concat (map (map elapsedSeconds)
              (allSeries example_host flipsSeen cur []))) = Fin 1"
  proof -
    have "foldl js_max (Fin 1) (replicate n (Fin 0)) = Fin 1"
      by (induction n) (simp_all add: js_max_def)
    then show ?thesis by (simp add: all Math_max_def js_max_def)
  qed
  show ?thesis
    using c pr chart mv me unfolding r_def cur_def pj_def p_def n_def by blast
qed

theorem chart_long_series_throws_witness:
  "\<not> (\<exists>c. flipsChart example_host (scan_success (JObj
      [(''progress'', JObj [(''series'', JObj [(''currentEpoch'', JObj
         [(''epoch'', JNum (Fin 7)),
          (''points'', JArr (replicate 130000
             (JObj [(''timestamp'', JStr ''1970-01-01T00:00:00Z''),
                    (''flipsSeen'', JNum (Fin 1)), (''uniqueAuthors'', JNum (Fin 1))])))])])])]))
     = Inr c)"
  using chart_long_series_throws by simp

end
